theory Spec2Isabelle
  imports Main "HOL-Library.Sublist" "HOL-Library.Word"
begin

section \<open>The dnsscale reconciliation engine\<close>

text \<open>
  A shallow embedding of the reconciliation engine of dnsscale (\<^verbatim>\<open>main.go\<close>) and of the
  Route53 implementation of its DNS provider interface (\<^verbatim>\<open>providers/route53.go\<close>).
  Go strings are byte sequences and are modelled as \<^typ>\<open>string\<close>. The engine runs its
  poller and its workers as goroutines that share the node cache under a mutex; here one
  call of a function is modelled at a time, on explicit state. Logging has no effect on
  the state and is left out.
\<close>

subsection \<open>Strings\<close>

text \<open>\<^verbatim>\<open>strings.Contains(s, substr)\<close>: does \<open>substr\<close> occur in \<open>s\<close> as a contiguous run.\<close>

fun Contains :: "string \<Rightarrow> string \<Rightarrow> bool" where
  "Contains [] substr = (substr = [])"
| "Contains (c # s) substr = (prefix substr (c # s) \<or> Contains s substr)"

text \<open>\<^verbatim>\<open>strings.HasSuffix(s, suffix)\<close> and \<^verbatim>\<open>strings.TrimSuffix(s, suffix)\<close>.\<close>

definition HasSuffix :: "string \<Rightarrow> string \<Rightarrow> bool" where
  "HasSuffix s suf = suffix suf s"

definition TrimSuffix :: "string \<Rightarrow> string \<Rightarrow> string" where
  "TrimSuffix s suf = (if HasSuffix s suf then take (length s - length suf) s else s)"

subsection \<open>Data\<close>

text \<open>
  Go's \<^verbatim>\<open>error\<close> values. Errors that come out of a collaborator (the Tailscale client, a DNS
  backend) are opaque; \<open>Errorf_w\<close> is \<^verbatim>\<open>fmt.Errorf("<msg>: %w", err)\<close> and \<open>Errorf_s\<close> is
  \<^verbatim>\<open>fmt.Errorf\<close> with one \<^verbatim>\<open>%s\<close> argument.
\<close>

datatype error =
    External string
  | Errorf_w string error
  | Errorf_s string string

text \<open>
  What a call can do: return a value, return an error, or panic (a nil dereference in the
  Route53 listing is the only panic the modelled code can raise).
\<close>

datatype 'a result = Ok 'a | Err error | Panic

text \<open>\<^verbatim>\<open>TailscaleNode\<close>; \<open>LastSeen\<close> is a point in time, kept abstract as a number.\<close>

record TailscaleNode =
  ID :: string
  Name :: string
  Hostname :: string
  Addresses :: "string list"
  Tags :: "string list"
  Online :: bool
  LastSeen :: int

text \<open>\<^verbatim>\<open>providers.DNSRecord\<close>; \<open>TTL\<close> is an \<^verbatim>\<open>int64\<close>.\<close>

record DNSRecord =
  Name :: string
  Type :: string
  Value :: string
  TTL :: "64 word"

text \<open>
  The \<^verbatim>\<open>providers.DNSProvider\<close> interface. A backend is a black box with a state of its own
  (\<open>'s\<close>); each method takes the zone and the state and gives back its answer and the new
  state. The methods that return only an \<^verbatim>\<open>error\<close> give \<open>None\<close> for \<^verbatim>\<open>nil\<close>.
\<close>

record 's DNSProvider =
  ListRecords :: "string \<Rightarrow> 's \<Rightarrow> DNSRecord list result \<times> 's"
  CreateRecord :: "string \<Rightarrow> DNSRecord \<Rightarrow> 's \<Rightarrow> error option \<times> 's"
  UpdateRecord :: "string \<Rightarrow> DNSRecord \<Rightarrow> 's \<Rightarrow> error option \<times> 's"
  DeleteRecord :: "string \<Rightarrow> DNSRecord \<Rightarrow> 's \<Rightarrow> error option \<times> 's"

text \<open>
  The calls the engine makes on the backend, in the order it makes them, each with what
  the backend answered. The trace is what the claims about "calls issued" are stated on.
\<close>

datatype call =
    ListRecordsCall string
  | CreateRecordCall string DNSRecord
  | UpdateRecordCall string DNSRecord
  | DeleteRecordCall string DNSRecord

type_synonym event = "call \<times> unit result"

definition answer :: "error option \<Rightarrow> unit result" where
  "answer e = (case e of None \<Rightarrow> Ok () | Some err \<Rightarrow> Err err)"

text \<open>
  The calls on the work queue (\<^verbatim>\<open>workqueue.RateLimitingInterface\<close>, a library of another
  repository): the engine's side of it is the sequence of methods it calls.
\<close>

datatype queue_call = Add string | AddRateLimited string | Forget string | Done string

text \<open>
  \<^verbatim>\<open>DNSReconciler\<close>: the managed domain, the node cache (\<^verbatim>\<open>map[string]TailscaleNode\<close>) and
  the tag filter (\<^verbatim>\<open>map[string]string\<close>). The Tailscale client, the provider and the queue are
  passed to the functions that use them.
\<close>

record DNSReconciler =
  domain :: string
  nodeCache :: "string \<rightharpoonup> TailscaleNode"
  annotations :: "string \<rightharpoonup> string"

subsection \<open>The change detector\<close>

text \<open>
  \<^verbatim>\<open>nodesEqual\<close>. The loop reads \<^verbatim>\<open>b.Addresses[i]\<close> for every index \<open>i\<close> of \<^verbatim>\<open>a.Addresses\<close>;
  the length check before it keeps the index in range.
\<close>

fun nodesEqual_loop :: "nat \<Rightarrow> string list \<Rightarrow> string list \<Rightarrow> bool" where
  "nodesEqual_loop i [] bs = True"
| "nodesEqual_loop i (addr # rest) bs =
     (if addr \<noteq> bs ! i then False else nodesEqual_loop (Suc i) rest bs)"

definition nodesEqual :: "TailscaleNode \<Rightarrow> TailscaleNode \<Rightarrow> bool" where
  "nodesEqual a b =
     (if TailscaleNode.Name a \<noteq> TailscaleNode.Name b \<or> Online a \<noteq> Online b
         \<or> length (Addresses a) \<noteq> length (Addresses b)
      then False
      else nodesEqual_loop 0 (Addresses a) (Addresses b))"

text \<open>
  The first loop of \<^verbatim>\<open>syncNodes\<close> ("check for new or updated nodes"): it marks every fetched
  id in \<^verbatim>\<open>currentNodes\<close>, and stores and queues the nodes that are new or that differ from
  the cached one.
\<close>

fun syncNodes_updated ::
  "TailscaleNode list \<Rightarrow> (string \<rightharpoonup> TailscaleNode) \<Rightarrow> (string \<rightharpoonup> bool)
     \<Rightarrow> (string \<rightharpoonup> TailscaleNode) \<times> (string \<rightharpoonup> bool) \<times> queue_call list" where
  "syncNodes_updated [] cache currentNodes = (cache, currentNodes, [])"
| "syncNodes_updated (node # nodes) cache currentNodes =
     (let currentNodes1 = currentNodes(ID node \<mapsto> True);
          changed = (case cache (ID node) of
                       None \<Rightarrow> True
                     | Some existingNode \<Rightarrow> \<not> nodesEqual existingNode node);
          cache1 = (if changed then cache(ID node \<mapsto> node) else cache);
          (cache2, currentNodes2, q) = syncNodes_updated nodes cache1 currentNodes1
      in (cache2, currentNodes2, (if changed then [Add (ID node)] else []) @ q))"

text \<open>
  The second loop ("check for deleted nodes") ranges over the keys of the cache. Go visits
  the keys of a map once each, in an order it does not specify; the order of one run is the
  list \<open>keys\<close>. \<^verbatim>\<open>currentNodes[id]\<close> is \<^verbatim>\<open>false\<close> for an id that was never stored.
\<close>

definition current :: "(string \<rightharpoonup> bool) \<Rightarrow> string \<Rightarrow> bool" where
  "current currentNodes id' = (case currentNodes id' of None \<Rightarrow> False | Some b \<Rightarrow> b)"

fun syncNodes_deleted ::
  "string list \<Rightarrow> (string \<rightharpoonup> bool) \<Rightarrow> (string \<rightharpoonup> TailscaleNode)
     \<Rightarrow> (string \<rightharpoonup> TailscaleNode) \<times> queue_call list" where
  "syncNodes_deleted [] currentNodes cache = (cache, [])"
| "syncNodes_deleted (id' # keys) currentNodes cache =
     (if \<not> current currentNodes id'
      then (let (cache1, q) = syncNodes_deleted keys currentNodes (cache(id' := None))
            in (cache1, Add (id' @ '':delete'') # q))
      else syncNodes_deleted keys currentNodes cache)"

text \<open>
  \<^verbatim>\<open>syncNodes\<close>. \<open>listed\<close> is what \<^verbatim>\<open>r.tailscale.ListNodes(ctx)\<close> returned, \<open>keys\<close> the order in which
  the second loop visits the cache. The result is the reconciler with its new cache, and
  the calls made on the queue.
\<close>

definition syncNodes ::
  "DNSReconciler \<Rightarrow> error + TailscaleNode list \<Rightarrow> string list
     \<Rightarrow> DNSReconciler \<times> queue_call list" where
  "syncNodes r listed keys =
     (case listed of
        Inl err \<Rightarrow> (r, [])
      | Inr nodes \<Rightarrow>
          (let (cache1, currentNodes, q1) = syncNodes_updated nodes (nodeCache r) Map.empty;
               (cache2, q2) = syncNodes_deleted keys currentNodes cache1
           in (r\<lparr>nodeCache := cache2\<rparr>, q1 @ q2)))"

text \<open>
  The keys the second loop visits are those the cache holds when the loop starts: the
  keys it had before the call and the ids of the fetched nodes, each once.
\<close>

definition range_of_cache :: "DNSReconciler \<Rightarrow> TailscaleNode list \<Rightarrow> string list \<Rightarrow> bool" where
  "range_of_cache r nodes keys =
     (distinct keys \<and> set keys = dom (nodeCache r) \<union> ID ` set nodes)"

text \<open>
  \<^verbatim>\<open>watchTailscale\<close>: one \<^verbatim>\<open>syncNodes\<close> at the start and one per tick, until the context is
  cancelled. \<open>polls\<close> holds, for each of these runs, what \<^verbatim>\<open>ListNodes\<close> returned and the order
  of the range loop.
\<close>

fun watchTailscale ::
  "DNSReconciler \<Rightarrow> ((error + TailscaleNode list) \<times> string list) list
     \<Rightarrow> DNSReconciler \<times> queue_call list" where
  "watchTailscale r [] = (r, [])"
| "watchTailscale r ((listed, keys) # polls) =
     (let (r1, q1) = syncNodes r listed keys;
          (r2, q2) = watchTailscale r1 polls
      in (r2, q1 @ q2))"

fun ranges_of_cache ::
  "DNSReconciler \<Rightarrow> ((error + TailscaleNode list) \<times> string list) list \<Rightarrow> bool" where
  "ranges_of_cache r [] = True"
| "ranges_of_cache r ((listed, keys) # polls) =
     ((case listed of Inl err \<Rightarrow> True | Inr nodes \<Rightarrow> range_of_cache r nodes keys)
      \<and> ranges_of_cache (fst (syncNodes r listed keys)) polls)"

subsection \<open>The reconcile state machine\<close>

text \<open>\<^verbatim>\<open>shouldManageNode\<close>: with a tag filter, a node is managed when one of its tags is a key of it.\<close>

fun shouldManageNode_loop :: "(string \<rightharpoonup> string) \<Rightarrow> string list \<Rightarrow> bool" where
  "shouldManageNode_loop ann [] = False"
| "shouldManageNode_loop ann (tag # tags) =
     (if ann tag \<noteq> None then True else shouldManageNode_loop ann tags)"

definition shouldManageNode :: "DNSReconciler \<Rightarrow> TailscaleNode \<Rightarrow> bool" where
  "shouldManageNode r node =
     (if annotations r \<noteq> Map.empty then shouldManageNode_loop (annotations r) (Tags node)
      else True)"

text \<open>
  The inner loop of \<^verbatim>\<open>deleteNodeDNS\<close>: a \<^verbatim>\<open>DeleteRecord\<close> for every listed record with the name
  found; a delete that fails is logged and the loop goes on.
\<close>

fun deleteNodeDNS_sweep ::
  "'s DNSProvider \<Rightarrow> string \<Rightarrow> string \<Rightarrow> DNSRecord list \<Rightarrow> 's \<Rightarrow> event list \<times> 's" where
  "deleteNodeDNS_sweep p zone recordName [] s = ([], s)"
| "deleteNodeDNS_sweep p zone recordName (recordToDelete # records) s =
     (if Name recordToDelete = recordName
      then (let (err, s1) = DeleteRecord p zone recordToDelete s;
                (trace, s2) = deleteNodeDNS_sweep p zone recordName records s1
            in ((DeleteRecordCall zone recordToDelete, answer err) # trace, s2))
      else deleteNodeDNS_sweep p zone recordName records s)"

text \<open>
  The outer loop: it looks for a TXT record whose value contains \<^verbatim>\<open>node_id=<nodeID>\<close>, sweeps
  the whole list (\<open>records\<close>) for the name of the first one it finds, and stops there
  (\<^verbatim>\<open>break\<close>).
\<close>

fun deleteNodeDNS_match ::
  "'s DNSProvider \<Rightarrow> string \<Rightarrow> string \<Rightarrow> DNSRecord list \<Rightarrow> DNSRecord list \<Rightarrow> 's
     \<Rightarrow> event list \<times> 's" where
  "deleteNodeDNS_match p zone nodeID records [] s = ([], s)"
| "deleteNodeDNS_match p zone nodeID records (record # rest) s =
     (if Type record = ''TXT'' \<and> Contains (Value record) (''node_id='' @ nodeID)
      then deleteNodeDNS_sweep p zone (Name record) records s
      else deleteNodeDNS_match p zone nodeID records rest s)"

definition deleteNodeDNS ::
  "DNSReconciler \<Rightarrow> 's DNSProvider \<Rightarrow> string \<Rightarrow> 's \<Rightarrow> unit result \<times> event list \<times> 's" where
  "deleteNodeDNS r p nodeID s =
     (case ListRecords p (domain r) s of
        (Err err, s1) \<Rightarrow> (Err err, [(ListRecordsCall (domain r), Err err)], s1)
      | (Panic, s1) \<Rightarrow> (Panic, [(ListRecordsCall (domain r), Panic)], s1)
      | (Ok records, s1) \<Rightarrow>
          (let (trace, s2) = deleteNodeDNS_match p (domain r) nodeID records records s1
           in (Ok (), (ListRecordsCall (domain r), Ok ()) # trace, s2)))"

text \<open>
  The address loop of \<^verbatim>\<open>reconcile\<close>: one \<^verbatim>\<open>UpdateRecord\<close> per address, and a return with the
  wrapped error at the first one that fails.
\<close>

fun reconcile_addresses ::
  "'s DNSProvider \<Rightarrow> string \<Rightarrow> string \<Rightarrow> string list \<Rightarrow> 's
     \<Rightarrow> error option \<times> event list \<times> 's" where
  "reconcile_addresses p zone recordName [] s = (None, [], s)"
| "reconcile_addresses p zone recordName (addr # addrs) s =
     (let recordType = (if Contains addr '':'' then ''AAAA'' else ''A'');
          record = \<lparr>Name = recordName, Type = recordType, Value = addr, TTL = 300\<rparr>
      in case UpdateRecord p zone record s of
           (Some err, s1) \<Rightarrow>
             (Some (Errorf_w ''failed to update DNS record'' err),
              [(UpdateRecordCall zone record, Err err)], s1)
         | (None, s1) \<Rightarrow>
             (let (res, trace, s2) = reconcile_addresses p zone recordName addrs s1
              in (res, (UpdateRecordCall zone record, Ok ()) # trace, s2)))"

text \<open>The value of the TXT ownership record: \<^verbatim>\<open>fmt.Sprintf("\"dnsscale-managed node_id=%s\"", node.ID)\<close>.\<close>

definition ownership_value :: "string \<Rightarrow> string" where
  "ownership_value nodeID = CHR 0x22 # ''dnsscale-managed node_id='' @ nodeID @ [CHR 0x22]"

text \<open>\<^verbatim>\<open>reconcile\<close>: the result, the calls made on the backend, and the backend's new state.\<close>

definition reconcile ::
  "DNSReconciler \<Rightarrow> 's DNSProvider \<Rightarrow> string \<Rightarrow> 's \<Rightarrow> unit result \<times> event list \<times> 's" where
  "reconcile r p key s =
     (if HasSuffix key '':delete''
      then deleteNodeDNS r p (TrimSuffix key '':delete'') s
      else case nodeCache r key of
             None \<Rightarrow> (Err (Errorf_s ''node %s not found in cache'' key), [], s)
           | Some node \<Rightarrow>
               if \<not> shouldManageNode r node then (Ok (), [], s)
               else
                 (let recordName = TailscaleNode.Name node @ ''.'' @ domain r
                  in case reconcile_addresses p (domain r) recordName (Addresses node) s of
                       (Some err, trace, s1) \<Rightarrow> (Err err, trace, s1)
                     | (None, trace, s1) \<Rightarrow>
                         (let txtRecord = \<lparr>Name = recordName, Type = ''TXT'',
                                            Value = ownership_value (ID node), TTL = 300\<rparr>;
                              (err, s2) = UpdateRecord p (domain r) txtRecord s1
                          in (Ok (), trace @ [(UpdateRecordCall (domain r) txtRecord, answer err)],
                              s2))))"

text \<open>
  One turn of the loop of \<^verbatim>\<open>worker\<close>, for an item that \<^verbatim>\<open>r.queue.Get()\<close> handed out: the item is
  reconciled, then re-queued with \<^verbatim>\<open>AddRateLimited\<close> on an error and forgotten otherwise; the
  deferred \<^verbatim>\<open>Done\<close> runs last, also when the reconciliation panics.
\<close>

definition worker_item ::
  "DNSReconciler \<Rightarrow> 's DNSProvider \<Rightarrow> string \<Rightarrow> 's
     \<Rightarrow> unit result \<times> queue_call list \<times> event list \<times> 's" where
  "worker_item r p item s =
     (let (res, trace, s1) = reconcile r p item s
      in (res,
          (case res of
             Err err \<Rightarrow> [AddRateLimited item]
           | Ok u \<Rightarrow> [Forget item]
           | Panic \<Rightarrow> []) @ [Done item],
          trace, s1))"

subsection \<open>The Route53 provider\<close>

text \<open>
  The parts of the AWS SDK's \<^verbatim>\<open>types.ResourceRecordSet\<close> and \<^verbatim>\<open>types.ResourceRecord\<close> that the
  provider reads. \<^verbatim>\<open>Name\<close>, \<^verbatim>\<open>TTL\<close> and \<^verbatim>\<open>Value\<close> are pointers: \<open>None\<close> is \<^verbatim>\<open>nil\<close>.
\<close>

record ResourceRecord =
  rr_Value :: "string option"

record ResourceRecordSet =
  rrs_Name :: "string option"
  rrs_Type :: string
  rrs_TTL :: "64 word option"
  rrs_ResourceRecords :: "ResourceRecord list"

datatype ChangeAction = CREATE | UPSERT | DELETE

text \<open>
  The Route53 client: a paginated listing of a hosted zone gives a finite run of pages, each
  of them a page of record sets or an error; a change is one action on one record.
\<close>

record 's route53_Client =
  ListResourceRecordSets :: "string \<Rightarrow> 's \<Rightarrow> (error + ResourceRecordSet list) list \<times> 's"
  ChangeResourceRecordSets ::
    "string \<Rightarrow> ChangeAction \<Rightarrow> DNSRecord \<Rightarrow> 's \<Rightarrow> error option \<times> 's"

text \<open>
  \<^verbatim>\<open>Route53Provider.ListRecords\<close>, innermost loop first. Dereferencing a \<^verbatim>\<open>nil\<close> pointer
  panics: the result is \<open>None\<close> then.
\<close>

fun ListRecords_values ::
  "ResourceRecordSet \<Rightarrow> ResourceRecord list \<Rightarrow> DNSRecord list \<Rightarrow> DNSRecord list option" where
  "ListRecords_values rrs [] records = Some records"
| "ListRecords_values rrs (rr # rest) records =
     (case (rrs_Name rrs, rr_Value rr, rrs_TTL rrs) of
        (Some name, Some val, Some ttl) \<Rightarrow>
          ListRecords_values rrs rest
            (records @ [\<lparr>Name = name, Type = rrs_Type rrs, Value = val, TTL = ttl\<rparr>])
      | _ \<Rightarrow> None)"

fun ListRecords_sets ::
  "ResourceRecordSet list \<Rightarrow> DNSRecord list \<Rightarrow> DNSRecord list option" where
  "ListRecords_sets [] records = Some records"
| "ListRecords_sets (rrs # rest) records =
     (if rrs_Type rrs = ''A'' \<or> rrs_Type rrs = ''AAAA''
      then (case ListRecords_values rrs (rrs_ResourceRecords rrs) records of
              None \<Rightarrow> None
            | Some records1 \<Rightarrow> ListRecords_sets rest records1)
      else ListRecords_sets rest records)"

fun ListRecords_pages ::
  "(error + ResourceRecordSet list) list \<Rightarrow> DNSRecord list \<Rightarrow> DNSRecord list result" where
  "ListRecords_pages [] records = Ok records"
| "ListRecords_pages (page # pages) records =
     (case page of
        Inl err \<Rightarrow> Err err
      | Inr sets \<Rightarrow>
          (case ListRecords_sets sets records of
             None \<Rightarrow> Panic
           | Some records1 \<Rightarrow> ListRecords_pages pages records1))"

definition Route53Provider_ListRecords ::
  "'s route53_Client \<Rightarrow> string \<Rightarrow> string \<Rightarrow> 's \<Rightarrow> DNSRecord list result \<times> 's" where
  "Route53Provider_ListRecords client zoneID zone s =
     (let (pages, s1) = ListResourceRecordSets client zoneID s
      in (ListRecords_pages pages [], s1))"

text \<open>The provider as a \<^verbatim>\<open>DNSProvider\<close>: the three writing methods are one change each.\<close>

definition Route53Provider :: "'s route53_Client \<Rightarrow> string \<Rightarrow> 's DNSProvider" where
  "Route53Provider client zoneID =
     \<lparr>ListRecords = Route53Provider_ListRecords client zoneID,
      CreateRecord = (\<lambda>zone record. ChangeResourceRecordSets client zoneID CREATE record),
      UpdateRecord = (\<lambda>zone record. ChangeResourceRecordSets client zoneID UPSERT record),
      DeleteRecord = (\<lambda>zone record. ChangeResourceRecordSets client zoneID DELETE record)\<rparr>"

subsection \<open>A backend for examples\<close>

text \<open>
  A backend that lists a fixed set of records, and whose updates and deletes fail on the
  records picked out by two predicates. It has no state. The examples below run the engine
  against it.
\<close>

definition backend_unavailable :: error where
  "backend_unavailable = External ''backend unavailable''"

definition fixed_provider ::
  "DNSRecord list \<Rightarrow> (DNSRecord \<Rightarrow> bool) \<Rightarrow> (DNSRecord \<Rightarrow> bool) \<Rightarrow> unit DNSProvider" where
  "fixed_provider listed update_fails delete_fails =
     \<lparr>ListRecords = (\<lambda>zone s. (Ok listed, s)),
      CreateRecord = (\<lambda>zone record s. (None, s)),
      UpdateRecord = (\<lambda>zone record s.
         (if update_fails record then Some backend_unavailable else None, s)),
      DeleteRecord = (\<lambda>zone record s.
         (if delete_fails record then Some backend_unavailable else None, s))\<rparr>"

subsection \<open>Examples\<close>

text \<open>\<^verbatim>\<open>NewDNSReconciler\<close>: the cache and the tag filter start empty.\<close>

definition NewDNSReconciler :: "string \<Rightarrow> DNSReconciler" where
  "NewDNSReconciler d = \<lparr>domain = d, nodeCache = Map.empty, annotations = Map.empty\<rparr>"

text \<open>
  Two nodes, the same two with other tags, and a reconciler for \<^verbatim>\<open>example.com\<close> that has both
  in its cache.
\<close>

definition example_node :: "string \<Rightarrow> string \<Rightarrow> string list \<Rightarrow> string list \<Rightarrow> TailscaleNode" where
  "example_node i n addrs tags =
     \<lparr>ID = i, Name = n, Hostname = n, Addresses = addrs, Tags = tags, Online = True, LastSeen = 0\<rparr>"

definition node_web :: TailscaleNode where
  "node_web = example_node ''123456'' ''web-server'' [''100.64.1.1'', ''fd7a:115c:a1e0::1''] []"

definition node_db :: TailscaleNode where
  "node_db = example_node ''7'' ''db'' [''100.64.1.2''] [''tag:prod'']"

definition web_retagged :: TailscaleNode where
  "web_retagged = node_web\<lparr>Tags := [''tag:prod'', ''tag:web'']\<rparr>"

definition db_retagged :: TailscaleNode where
  "db_retagged = node_db\<lparr>Tags := []\<rparr>"

definition two_cached :: DNSReconciler where
  "two_cached = (NewDNSReconciler ''example.com'')
     \<lparr>nodeCache := [''123456'' \<mapsto> node_web, ''7'' \<mapsto> node_db]\<rparr>"

text \<open>
  The records of \<open>node_web\<close> under its name, the records it left under an older name, and a
  record of \<open>node_db\<close>.
\<close>

definition web_A :: DNSRecord where
  "web_A = \<lparr>Name = ''web-server.example.com'', Type = ''A'', Value = ''100.64.1.1'', TTL = 300\<rparr>"

definition web_AAAA :: DNSRecord where
  "web_AAAA = \<lparr>Name = ''web-server.example.com'', Type = ''AAAA'',
               Value = ''fd7a:115c:a1e0::1'', TTL = 300\<rparr>"

definition web_TXT :: DNSRecord where
  "web_TXT = \<lparr>Name = ''web-server.example.com'', Type = ''TXT'',
              Value = CHR 0x22 # ''dnsscale-managed node_id=123456'' @ [CHR 0x22], TTL = 300\<rparr>"

definition old_TXT :: DNSRecord where
  "old_TXT = \<lparr>Name = ''old-name.example.com'', Type = ''TXT'',
              Value = CHR 0x22 # ''dnsscale-managed node_id=123456'' @ [CHR 0x22], TTL = 300\<rparr>"

definition old_A :: DNSRecord where
  "old_A = \<lparr>Name = ''old-name.example.com'', Type = ''A'', Value = ''100.64.1.1'', TTL = 300\<rparr>"

definition db_A :: DNSRecord where
  "db_A = \<lparr>Name = ''db.example.com'', Type = ''A'', Value = ''100.64.1.2'', TTL = 300\<rparr>"

text \<open>
  Backends: one that accepts every call, one that rejects AAAA records, one that rejects TXT
  records.
\<close>

definition accepting_provider :: "DNSRecord list \<Rightarrow> unit DNSProvider" where
  "accepting_provider listed = fixed_provider listed (\<lambda>record. False) (\<lambda>record. False)"

definition no_ipv6_provider :: "unit DNSProvider" where
  "no_ipv6_provider = fixed_provider [] (\<lambda>record. Type record = ''AAAA'') (\<lambda>record. False)"

definition no_txt_provider :: "unit DNSProvider" where
  "no_txt_provider = fixed_provider [] (\<lambda>record. Type record = ''TXT'') (\<lambda>record. False)"

text \<open>
  A hosted zone in Route53 that holds the three record sets of \<open>node_web\<close>, listed in two
  pages.
\<close>

definition web_TXT_set :: ResourceRecordSet where
  "web_TXT_set = \<lparr>rrs_Name = Some ''web-server.example.com'', rrs_Type = ''TXT'',
                  rrs_TTL = Some 300,
                  rrs_ResourceRecords = [\<lparr>rr_Value = Some (ownership_value ''123456'')\<rparr>]\<rparr>"

definition web_A_set :: ResourceRecordSet where
  "web_A_set = \<lparr>rrs_Name = Some ''web-server.example.com'', rrs_Type = ''A'',
                rrs_TTL = Some 300,
                rrs_ResourceRecords = [\<lparr>rr_Value = Some ''100.64.1.1''\<rparr>]\<rparr>"

definition web_AAAA_set :: ResourceRecordSet where
  "web_AAAA_set = \<lparr>rrs_Name = Some ''web-server.example.com'', rrs_Type = ''AAAA'',
                   rrs_TTL = Some 300,
                   rrs_ResourceRecords = [\<lparr>rr_Value = Some ''fd7a:115c:a1e0::1''\<rparr>]\<rparr>"

definition example_zone :: "unit route53_Client" where
  "example_zone =
     \<lparr>ListResourceRecordSets = (\<lambda>zoneID s. ([Inr [web_A_set, web_TXT_set], Inr [web_AAAA_set]], s)),
      ChangeResourceRecordSets = (\<lambda>zoneID action record s. (None, s))\<rparr>"

subsection \<open>Notation for the statements\<close>

text \<open>
  The record that \<^verbatim>\<open>reconcile\<close> builds for an address, the event of its successful update,
  and the TXT ownership record.
\<close>

abbreviation address_record :: "string \<Rightarrow> string \<Rightarrow> DNSRecord" where
  "address_record recordName addr \<equiv>
     \<lparr>Name = recordName, Type = (if Contains addr '':'' then ''AAAA'' else ''A''),
      Value = addr, TTL = 300\<rparr>"

abbreviation address_ok :: "string \<Rightarrow> string \<Rightarrow> string \<Rightarrow> event" where
  "address_ok zone recordName addr \<equiv> (UpdateRecordCall zone (address_record recordName addr), Ok ())"

abbreviation ownership_record :: "string \<Rightarrow> string \<Rightarrow> DNSRecord" where
  "ownership_record recordName nodeID \<equiv>
     \<lparr>Name = recordName, Type = ''TXT'', Value = ownership_value nodeID, TTL = 300\<rparr>"

abbreviation address_type :: "DNSRecord \<Rightarrow> bool" where
  "address_type record \<equiv> Type record = ''A'' \<or> Type record = ''AAAA''"

lemmas example_defs = two_cached_def NewDNSReconciler_def node_web_def node_db_def example_node_def

lemmas record_defs = web_A_def web_AAAA_def web_TXT_def old_TXT_def old_A_def db_A_def

lemmas provider_defs = accepting_provider_def no_ipv6_provider_def no_txt_provider_def
  fixed_provider_def backend_unavailable_def web_A_def web_AAAA_def web_TXT_def

lemmas route53_defs = example_zone_def web_TXT_set_def web_A_set_def web_AAAA_set_def

section \<open>Properties\<close>

subsection \<open>Strings and node equality\<close>

lemma Contains_sublist: "Contains s substr \<longleftrightarrow> sublist substr s"
  by (induction s) (auto simp: sublist_Cons_right)

lemma HasSuffix_append: "HasSuffix (s @ suf) suf"
  by (simp add: HasSuffix_def suffix_def)

lemma TrimSuffix_append: "TrimSuffix (s @ suf) suf = s"
  by (simp add: TrimSuffix_def HasSuffix_def suffix_def)

lemma nodesEqual_loop_drop:
  "i + length as \<le> length bs \<Longrightarrow> nodesEqual_loop i as bs \<longleftrightarrow> as = take (length as) (drop i bs)"
proof (induction as arbitrary: i)
  case Nil
  then show ?case by simp
next
  case (Cons a as)
  then have i: "i < length bs" by simp
  then have d: "drop i bs = bs ! i # drop (Suc i) bs"
    by (simp add: Cons_nth_drop_Suc)
  from Cons.prems have "Suc i + length as \<le> length bs" by simp
  from Cons.IH [OF this] d show ?case by auto
qed

lemma nodesEqual_iff:
  "nodesEqual a b \<longleftrightarrow>
     TailscaleNode.Name a = TailscaleNode.Name b \<and> Online a = Online b \<and> Addresses a = Addresses b"
proof (cases "length (Addresses a) = length (Addresses b)")
  case True
  then have "nodesEqual_loop 0 (Addresses a) (Addresses b) \<longleftrightarrow> Addresses a = Addresses b"
    using nodesEqual_loop_drop [of 0 "Addresses a" "Addresses b"] by simp
  with True show ?thesis by (auto simp: nodesEqual_def)
next
  case False
  then show ?thesis by (auto simp: nodesEqual_def)
qed

lemma nodesEqual_refl: "nodesEqual n n"
  by (simp add: nodesEqual_iff)

lemma nodesEqual_trans: "nodesEqual a b \<Longrightarrow> nodesEqual b c \<Longrightarrow> nodesEqual a c"
  by (simp add: nodesEqual_iff)

lemma nodesEqual_Tags: "nodesEqual n (n\<lparr>Tags := tags\<rparr>)"
  by (simp add: nodesEqual_iff)

lemma ownership_value_contains_prefix:
  "prefix Y X \<Longrightarrow> Contains (ownership_value X) (''node_id='' @ Y)"
proof -
  assume "prefix Y X"
  then obtain Z where "X = Y @ Z" by (auto simp: prefix_def)
  then have "ownership_value X
      = (CHR 0x22 # ''dnsscale-managed '') @ (''node_id='' @ Y) @ (Z @ [CHR 0x22])"
    by (simp add: ownership_value_def)
  then have "sublist (''node_id='' @ Y) (ownership_value X)"
    by (metis sublist_appendI)
  then show ?thesis by (simp add: Contains_sublist)
qed

subsection \<open>The two passes of the change detector\<close>

lemma updated_dom:
  "dom (fst (syncNodes_updated nodes cache cur)) = dom cache \<union> ID ` set nodes"
proof (induction nodes arbitrary: cache cur)
  case Nil
  then show ?case by simp
next
  case (Cons node nodes)
  have "dom (if (case cache (ID node) of None \<Rightarrow> True | Some e \<Rightarrow> \<not> nodesEqual e node)
             then cache(ID node \<mapsto> node) else cache) = insert (ID node) (dom cache)"
    by (auto split: option.splits)
  then show ?case
    by (simp add: Let_def case_prod_beta Cons.IH)
qed

lemma updated_current:
  "current (fst (snd (syncNodes_updated nodes cache cur))) k \<longleftrightarrow> k \<in> ID ` set nodes \<or> current cur k"
proof (induction nodes arbitrary: cache cur)
  case Nil
  then show ?case by simp
next
  case (Cons node nodes)
  have c: "current (cur(ID node \<mapsto> True)) k \<longleftrightarrow> k = ID node \<or> current cur k"
    by (simp add: current_def)
  have "current (fst (snd (syncNodes_updated (node # nodes) cache cur))) k
          \<longleftrightarrow> k \<in> ID ` set nodes \<or> current (cur(ID node \<mapsto> True)) k"
    by (simp add: Let_def case_prod_beta Cons.IH del: fun_upd_apply)
  with c show ?case by auto
qed

lemma deleted_cache:
  "fst (syncNodes_deleted keys cur cache) =
     (\<lambda>k. if k \<in> set keys \<and> \<not> current cur k then None else cache k)"
proof (induction keys arbitrary: cache)
  case Nil
  then show ?case by simp
next
  case (Cons k keys)
  show ?case
    using Cons.IH by (auto simp: fun_eq_iff case_prod_beta)
qed

lemma deleted_queue:
  "snd (syncNodes_deleted keys cur cache) =
     map (\<lambda>k. Add (k @ '':delete'')) (filter (\<lambda>k. \<not> current cur k) keys)"
proof (induction keys arbitrary: cache)
  case Nil
  then show ?case by simp
next
  case (Cons k keys)
  show ?case
    using Cons.IH by (simp add: case_prod_beta)
qed

lemma syncNodes_Inr:
  "syncNodes r (Inr nodes) keys =
     (r\<lparr>nodeCache := fst (syncNodes_deleted keys (fst (snd (syncNodes_updated nodes (nodeCache r) Map.empty)))
                            (fst (syncNodes_updated nodes (nodeCache r) Map.empty)))\<rparr>,
      snd (snd (syncNodes_updated nodes (nodeCache r) Map.empty))
        @ snd (syncNodes_deleted keys (fst (snd (syncNodes_updated nodes (nodeCache r) Map.empty)))
                            (fst (syncNodes_updated nodes (nodeCache r) Map.empty))))"
  by (simp add: syncNodes_def split: prod.splits)

lemma current_empty: "current Map.empty k = False" by (simp add: current_def)

lemma syncNodes_cache:
  "nodeCache (fst (syncNodes r (Inr nodes) keys)) k =
     (if k \<in> set keys \<and> k \<notin> ID ` set nodes then None
      else fst (syncNodes_updated nodes (nodeCache r) Map.empty) k)"
  by (simp add: syncNodes_Inr deleted_cache updated_current current_empty)

lemma syncNodes_dom:
  assumes "set keys = dom (nodeCache r) \<union> ID ` set nodes"
  shows "dom (nodeCache (fst (syncNodes r (Inr nodes) keys))) = ID ` set nodes"
proof -
  let ?c = "fst (syncNodes_updated nodes (nodeCache r) Map.empty)"
  have d: "dom ?c = set keys"
    using assms by (simp add: updated_dom)
  have "k \<in> dom (nodeCache (fst (syncNodes r (Inr nodes) keys))) \<longleftrightarrow> k \<in> ID ` set nodes" for k
  proof (cases "k \<in> ID ` set nodes")
    case True
    then have "k \<in> dom ?c" using d assms by simp
    with True show ?thesis by (simp add: syncNodes_cache domIff)
  next
    case False
    show ?thesis
    proof (cases "k \<in> set keys")
      case True
      with False show ?thesis by (simp add: syncNodes_cache domIff)
    next
      case False
      then have "k \<notin> dom ?c" using d by simp
      with False \<open>k \<notin> ID ` set nodes\<close> show ?thesis by (simp add: syncNodes_cache domIff)
    qed
  qed
  then show ?thesis by blast
qed

lemma updated_queue:
  "\<exists>ns. snd (snd (syncNodes_updated nodes cache cur)) = map (\<lambda>n. Add (ID n)) ns \<and> set ns \<subseteq> set nodes"
proof (induction nodes arbitrary: cache cur)
  case Nil
  then show ?case by simp
next
  case (Cons node nodes)
  let ?changed = "case cache (ID node) of None \<Rightarrow> True | Some e \<Rightarrow> \<not> nodesEqual e node"
  let ?cache1 = "if ?changed then cache(ID node \<mapsto> node) else cache"
  from Cons.IH [of ?cache1 "cur(ID node \<mapsto> True)"]
  obtain ns where ns: "snd (snd (syncNodes_updated nodes ?cache1 (cur(ID node \<mapsto> True))))
      = map (\<lambda>n. Add (ID n)) ns" "set ns \<subseteq> set nodes"
    by blast
  have q: "snd (snd (syncNodes_updated (node # nodes) cache cur))
      = (if ?changed then [Add (ID node)] else []) @ map (\<lambda>n. Add (ID n)) ns"
    using ns(1) by (simp add: Let_def case_prod_beta del: fun_upd_apply)
  show ?case
  proof (cases ?changed)
    case True
    with q ns(2) have "snd (snd (syncNodes_updated (node # nodes) cache cur))
        = map (\<lambda>n. Add (ID n)) (node # ns) \<and> set (node # ns) \<subseteq> set (node # nodes)"
      by auto
    then show ?thesis by blast
  next
    case False
    with q ns(2) have "snd (snd (syncNodes_updated (node # nodes) cache cur))
        = map (\<lambda>n. Add (ID n)) ns \<and> set ns \<subseteq> set (node # nodes)"
      by auto
    then show ?thesis by blast
  qed
qed

lemma count_list_distinct:
  "distinct xs \<Longrightarrow> count_list xs x = (if x \<in> set xs then 1 else 0)"
  by (induction xs) auto

lemma inj_delete_key: "inj (\<lambda>k. Add (k @ '':delete''))"
  by (simp add: inj_def)

lemma syncNodes_queue:
  "snd (syncNodes r (Inr nodes) keys) =
     snd (snd (syncNodes_updated nodes (nodeCache r) Map.empty))
       @ map (\<lambda>k. Add (k @ '':delete'')) (filter (\<lambda>k. k \<notin> ID ` set nodes) keys)"
  by (simp add: syncNodes_Inr deleted_queue updated_current current_empty)

lemma watchTailscale_snoc:
  "fst (watchTailscale r (polls @ [poll])) =
     fst (syncNodes (fst (watchTailscale r polls)) (fst poll) (snd poll))"
proof (induction polls arbitrary: r)
  case Nil
  then show ?case by (cases poll) (simp add: case_prod_beta)
next
  case (Cons a polls)
  then show ?case by (cases a) (simp add: case_prod_beta)
qed

lemma ranges_of_cache_snoc:
  "ranges_of_cache r (polls @ [(Inr nodes, keys)]) \<Longrightarrow>
     range_of_cache (fst (watchTailscale r polls)) nodes keys"
proof (induction polls arbitrary: r)
  case Nil
  then show ?case by simp
next
  case (Cons a polls)
  then show ?case by (cases a) (simp add: case_prod_beta)
qed

lemma updated_other:
  "k \<notin> ID ` set nodes \<Longrightarrow> fst (syncNodes_updated nodes cache cur) k = cache k"
proof (induction nodes arbitrary: cache cur)
  case Nil
  then show ?case by simp
next
  case (Cons node nodes)
  from Cons.prems have k: "k \<noteq> ID node" "k \<notin> ID ` set nodes" by auto
  show ?case
    by (simp add: Let_def case_prod_beta Cons.IH [OF k(2)] k(1))
qed

lemma updated_entries:
  "n \<in> set nodes \<Longrightarrow>
     \<exists>c n'. fst (syncNodes_updated nodes cache cur) (ID n) = Some c
        \<and> n' \<in> set nodes \<and> ID n' = ID n \<and> nodesEqual c n'"
proof (induction nodes arbitrary: cache cur n)
  case Nil
  then show ?case by simp
next
  case (Cons node nodes)
  let ?changed = "case cache (ID node) of None \<Rightarrow> True | Some e \<Rightarrow> \<not> nodesEqual e node"
  let ?cache1 = "if ?changed then cache(ID node \<mapsto> node) else cache"
  have step: "fst (syncNodes_updated (node # nodes) cache cur)
      = fst (syncNodes_updated nodes ?cache1 (cur(ID node \<mapsto> True)))"
    by (simp add: Let_def case_prod_beta del: fun_upd_apply)
  show ?case
  proof (cases "ID n \<in> ID ` set nodes")
    case True
    then obtain m where m: "m \<in> set nodes" "ID m = ID n" by auto
    from Cons.IH [OF m(1), of ?cache1 "cur(ID node \<mapsto> True)"] obtain c n' where
      "fst (syncNodes_updated nodes ?cache1 (cur(ID node \<mapsto> True))) (ID m) = Some c"
      "n' \<in> set nodes" "ID n' = ID m" "nodesEqual c n'"
      by blast
    with m step have "fst (syncNodes_updated (node # nodes) cache cur) (ID n) = Some c
        \<and> n' \<in> set (node # nodes) \<and> ID n' = ID n \<and> nodesEqual c n'"
      by simp
    then show ?thesis by blast
  next
    case False
    with Cons.prems have n: "n = node" by auto
    from False n have "ID node \<notin> ID ` set nodes" by simp
    from updated_other [OF this, of ?cache1 "cur(ID node \<mapsto> True)"] n
    have "fst (syncNodes_updated (node # nodes) cache cur) (ID n) = ?cache1 (ID node)"
      by (simp only: step)
    moreover have "\<exists>c. ?cache1 (ID node) = Some c \<and> nodesEqual c node"
      by (cases "cache (ID node)") (auto simp: nodesEqual_refl)
    ultimately obtain c where
      "fst (syncNodes_updated (node # nodes) cache cur) (ID n) = Some c" "nodesEqual c node"
      by auto
    with n have "fst (syncNodes_updated (node # nodes) cache cur) (ID n) = Some c
        \<and> node \<in> set (node # nodes) \<and> ID node = ID n \<and> nodesEqual c node"
      by simp
    then show ?thesis by blast
  qed
qed

lemma updated_unchanged:
  "\<forall>n \<in> set nodes. \<exists>c. cache (ID n) = Some c \<and> nodesEqual c n \<Longrightarrow>
     fst (syncNodes_updated nodes cache cur) = cache
     \<and> snd (snd (syncNodes_updated nodes cache cur)) = []"
proof (induction nodes arbitrary: cur)
  case Nil
  then show ?case by simp
next
  case (Cons node nodes)
  from Cons.prems obtain c where c: "cache (ID node) = Some c" "nodesEqual c node"
    by auto
  from Cons.prems have "\<forall>n \<in> set nodes. \<exists>c. cache (ID n) = Some c \<and> nodesEqual c n"
    by simp
  from Cons.IH [OF this, of "cur(ID node \<mapsto> True)"] c show ?case
    by (simp add: Let_def case_prod_beta del: fun_upd_apply)
qed

subsection \<open>The traces of the reconcile state machine\<close>

lemma answer_simps: "answer None = Ok ()" "answer (Some err) = Err err"
  by (simp_all add: answer_def)

lemma reconcile_addresses_Cons:
  "reconcile_addresses p zone recordName (addr # addrs) s =
     (case UpdateRecord p zone (address_record recordName addr) s of
        (Some err, s1) \<Rightarrow>
          (Some (Errorf_w ''failed to update DNS record'' err),
           [(UpdateRecordCall zone (address_record recordName addr), Err err)], s1)
      | (None, s1) \<Rightarrow>
          (fst (reconcile_addresses p zone recordName addrs s1),
           address_ok zone recordName addr # fst (snd (reconcile_addresses p zone recordName addrs s1)),
           snd (snd (reconcile_addresses p zone recordName addrs s1))))"
  by (simp add: Let_def case_prod_beta split: option.splits)

lemma reconcile_addresses_None:
  "fst (reconcile_addresses p zone recordName addrs s) = None \<Longrightarrow>
     fst (snd (reconcile_addresses p zone recordName addrs s)) = map (address_ok zone recordName) addrs"
proof (induction addrs arbitrary: s)
  case Nil
  then show ?case by simp
next
  case (Cons addr addrs)
  obtain a s0 where u: "UpdateRecord p zone (address_record recordName addr) s = (a, s0)"
    by (cases "UpdateRecord p zone (address_record recordName addr) s") auto
  from Cons.prems u have a: "a = None"
    by (cases a) (simp_all add: reconcile_addresses_Cons del: reconcile_addresses.simps)
  from Cons.prems u a have "fst (reconcile_addresses p zone recordName addrs s0) = None"
    by (simp add: reconcile_addresses_Cons del: reconcile_addresses.simps)
  from Cons.IH [OF this] u a show ?case
    by (simp add: reconcile_addresses_Cons del: reconcile_addresses.simps)
qed

lemma reconcile_addresses_Some:
  "fst (reconcile_addresses p zone recordName addrs s) = Some e \<Longrightarrow>
     \<exists>done addr err. e = Errorf_w ''failed to update DNS record'' err
        \<and> fst (snd (reconcile_addresses p zone recordName addrs s))
            = map (address_ok zone recordName) done
                @ [(UpdateRecordCall zone (address_record recordName addr), Err err)]"
proof (induction addrs arbitrary: s)
  case Nil
  then show ?case by simp
next
  case (Cons addr addrs)
  obtain a s0 where u: "UpdateRecord p zone (address_record recordName addr) s = (a, s0)"
    by (cases "UpdateRecord p zone (address_record recordName addr) s") auto
  show ?case
  proof (cases a)
    case (Some err)
    with Cons.prems u have "e = Errorf_w ''failed to update DNS record'' err"
      and "fst (snd (reconcile_addresses p zone recordName (addr # addrs) s))
            = map (address_ok zone recordName) []
                @ [(UpdateRecordCall zone (address_record recordName addr), Err err)]"
      by (simp_all add: reconcile_addresses_Cons del: reconcile_addresses.simps)
    then show ?thesis by blast
  next
    case None
    with Cons.prems u have "fst (reconcile_addresses p zone recordName addrs s0) = Some e"
      by (simp add: reconcile_addresses_Cons del: reconcile_addresses.simps)
    from Cons.IH [OF this] obtain done' addr' err where
      e: "e = Errorf_w ''failed to update DNS record'' err" and
      t': "fst (snd (reconcile_addresses p zone recordName addrs s0))
             = map (address_ok zone recordName) done'
                 @ [(UpdateRecordCall zone (address_record recordName addr'), Err err)]"
      by blast
    from t' u None
    have "fst (snd (reconcile_addresses p zone recordName (addr # addrs) s))
            = map (address_ok zone recordName) (addr # done')
                @ [(UpdateRecordCall zone (address_record recordName addr'), Err err)]"
      by (simp add: reconcile_addresses_Cons del: reconcile_addresses.simps)
    with e show ?thesis by blast
  qed
qed

text \<open>The deletion path calls ListRecords and DeleteRecord only.\<close>

lemma sweep_calls:
  "map fst (fst (deleteNodeDNS_sweep p zone recordName records s)) =
     map (DeleteRecordCall zone) (filter (\<lambda>record. Name record = recordName) records)"
  by (induction records arbitrary: s) (simp_all add: case_prod_beta)

lemma match_calls:
  "map fst (fst (deleteNodeDNS_match p zone nodeID records rest s)) =
     (case find (\<lambda>record. Type record = ''TXT'' \<and> Contains (Value record) (''node_id='' @ nodeID)) rest of
        None \<Rightarrow> []
      | Some owner \<Rightarrow>
          map (DeleteRecordCall zone) (filter (\<lambda>record. Name record = Name owner) records))"
  by (induction rest) (simp_all add: sweep_calls)

lemma match_no_owner:
  "find (\<lambda>record. Type record = ''TXT'' \<and> Contains (Value record) (''node_id='' @ nodeID)) rest = None
     \<Longrightarrow> deleteNodeDNS_match p zone nodeID records rest s = ([], s)"
  by (induction rest) (auto split: if_splits)

lemma deleteNodeDNS_calls:
  "map fst (fst (snd (deleteNodeDNS r p nodeID s))) =
     ListRecordsCall (domain r) #
       (case fst (ListRecords p (domain r) s) of
          Ok records \<Rightarrow>
            (case find (\<lambda>record. Type record = ''TXT'' \<and> Contains (Value record) (''node_id='' @ nodeID)) records of
               None \<Rightarrow> []
             | Some owner \<Rightarrow>
                 map (DeleteRecordCall (domain r)) (filter (\<lambda>record. Name record = Name owner) records))
        | Err err \<Rightarrow> []
        | Panic \<Rightarrow> [])"
proof (cases "ListRecords p (domain r) s")
  case (Pair a s1)
  then show ?thesis
    by (cases a) (simp_all add: deleteNodeDNS_def case_prod_beta match_calls)
qed

lemma deleteNodeDNS_no_update:
  "(UpdateRecordCall zone record, a) \<notin> set (fst (snd (deleteNodeDNS r p nodeID s)))"
proof
  assume "(UpdateRecordCall zone record, a) \<in> set (fst (snd (deleteNodeDNS r p nodeID s)))"
  then have "UpdateRecordCall zone record \<in> set (map fst (fst (snd (deleteNodeDNS r p nodeID s))))"
    by force
  then show False
    unfolding deleteNodeDNS_calls
    by (auto split: result.splits option.splits)
qed

lemma worker_item_queue:
  "fst (snd (worker_item r p item s)) =
     (case fst (reconcile r p item s) of
        Err err \<Rightarrow> [AddRateLimited item]
      | Ok u \<Rightarrow> [Forget item]
      | Panic \<Rightarrow> []) @ [Done item]"
  by (simp add: worker_item_def case_prod_beta)

lemma reconcile_upsert:
  assumes "\<not> HasSuffix key '':delete''" and "nodeCache r key = Some node"
    and "shouldManageNode r node"
  shows "reconcile r p key s =
     (case reconcile_addresses p (domain r) (TailscaleNode.Name node @ ''.'' @ domain r) (Addresses node) s of
        (Some err, trace, s1) \<Rightarrow> (Err err, trace, s1)
      | (None, trace, s1) \<Rightarrow>
          (Ok (),
           trace @ [(UpdateRecordCall (domain r)
                       (ownership_record (TailscaleNode.Name node @ ''.'' @ domain r) (ID node)),
                     answer (fst (UpdateRecord p (domain r)
                       (ownership_record (TailscaleNode.Name node @ ''.'' @ domain r) (ID node)) s1)))],
           snd (UpdateRecord p (domain r)
                  (ownership_record (TailscaleNode.Name node @ ''.'' @ domain r) (ID node)) s1)))"
  using assms by (simp add: reconcile_def Let_def case_prod_beta split: option.splits)

lemma reconcile_cases:
  "(HasSuffix key '':delete''
      \<and> reconcile r p key s = deleteNodeDNS r p (TrimSuffix key '':delete'') s)
   \<or> fst (snd (reconcile r p key s)) = []
   \<or> (\<exists>n done addr err.
        fst (reconcile r p key s) = Err (Errorf_w ''failed to update DNS record'' err)
        \<and> fst (snd (reconcile r p key s))
            = map (address_ok (domain r) n) done
                @ [(UpdateRecordCall (domain r) (address_record n addr), Err err)])
   \<or> (\<exists>node a.
        \<not> HasSuffix key '':delete'' \<and> nodeCache r key = Some node \<and> shouldManageNode r node
        \<and> fst (reconcile r p key s) = Ok ()
        \<and> fst (snd (reconcile r p key s))
            = map (address_ok (domain r) (TailscaleNode.Name node @ ''.'' @ domain r)) (Addresses node)
                @ [(UpdateRecordCall (domain r)
                      (ownership_record (TailscaleNode.Name node @ ''.'' @ domain r) (ID node)), a)])"
proof (cases "HasSuffix key '':delete''")
  case True
  then show ?thesis by (simp add: reconcile_def)
next
  case suffix: False
  show ?thesis
  proof (cases "nodeCache r key")
    case None
    with suffix show ?thesis by (simp add: reconcile_def)
  next
    case (Some node)
    show ?thesis
    proof (cases "shouldManageNode r node")
      case False
      with suffix Some show ?thesis by (simp add: reconcile_def)
    next
      case True
      let ?n = "TailscaleNode.Name node @ ''.'' @ domain r"
      let ?ra = "reconcile_addresses p (domain r) ?n (Addresses node) s"
      note up = reconcile_upsert [OF suffix Some True, of p s]
      show ?thesis
      proof (cases "fst ?ra")
        case None
        from reconcile_addresses_None [OF None]
        have t: "fst (snd ?ra) = map (address_ok (domain r) ?n) (Addresses node)" .
        from None t have "fst (reconcile r p key s) = Ok ()"
          and "\<exists>a. fst (snd (reconcile r p key s))
            = map (address_ok (domain r) ?n) (Addresses node)
                @ [(UpdateRecordCall (domain r) (ownership_record ?n (ID node)), a)]"
          by (simp_all add: up case_prod_beta)
        with suffix Some True show ?thesis by blast
      next
        case (Some e)
        from reconcile_addresses_Some [OF Some] obtain done' addr err where
          e: "e = Errorf_w ''failed to update DNS record'' err" and
          t: "fst (snd ?ra) = map (address_ok (domain r) ?n) done'
                @ [(UpdateRecordCall (domain r) (address_record ?n addr), Err err)]"
          by blast
        from Some e t have "fst (reconcile r p key s) = Err (Errorf_w ''failed to update DNS record'' err)"
          and "fst (snd (reconcile r p key s)) = map (address_ok (domain r) ?n) done'
                @ [(UpdateRecordCall (domain r) (address_record ?n addr), Err err)]"
          by (simp_all add: up case_prod_beta)
        then show ?thesis by blast
      qed
    qed
  qed
qed

lemma reconcile_delete_key:
  "reconcile r p (nodeID @ '':delete'') s = deleteNodeDNS r p nodeID s"
  by (simp add: reconcile_def HasSuffix_def TrimSuffix_def suffix_def)

subsection \<open>The examples, evaluated\<close>

lemma HasSuffix_web: "\<not> HasSuffix ''123456'' '':delete''"
  by (simp add: HasSuffix_def suffix_to_prefix)

lemma managed_web: "shouldManageNode two_cached node_web"
  by (simp add: shouldManageNode_def example_defs)

lemma reconcile_web_no_ipv6:
  "reconcile two_cached no_ipv6_provider ''123456'' () =
     (Err (Errorf_w ''failed to update DNS record'' backend_unavailable),
      [(UpdateRecordCall ''example.com'' web_A, Ok ()),
       (UpdateRecordCall ''example.com'' web_AAAA, Err backend_unavailable)], ())"
  by (simp add: reconcile_def HasSuffix_def suffix_to_prefix shouldManageNode_def
        example_defs provider_defs ownership_value_def answer_def Let_def)

lemma reconcile_web_no_txt:
  "reconcile two_cached no_txt_provider ''123456'' () =
     (Ok (),
      [(UpdateRecordCall ''example.com'' web_A, Ok ()),
       (UpdateRecordCall ''example.com'' web_AAAA, Ok ()),
       (UpdateRecordCall ''example.com'' web_TXT, Err backend_unavailable)], ())"
  by (simp add: reconcile_def HasSuffix_def suffix_to_prefix shouldManageNode_def
        example_defs provider_defs ownership_value_def answer_def Let_def)

lemma reconcile_web_accepting:
  "reconcile two_cached (accepting_provider []) ''123456'' () =
     (Ok (),
      [(UpdateRecordCall ''example.com'' web_A, Ok ()),
       (UpdateRecordCall ''example.com'' web_AAAA, Ok ()),
       (UpdateRecordCall ''example.com'' web_TXT, Ok ())], ())"
  by (simp add: reconcile_def HasSuffix_def suffix_to_prefix shouldManageNode_def
        example_defs provider_defs ownership_value_def answer_def Let_def)

lemma delete_renamed:
  "deleteNodeDNS two_cached (accepting_provider [old_TXT, old_A, web_TXT, web_A]) ''123456'' () =
     (Ok (), [(ListRecordsCall ''example.com'', Ok ()),
              (DeleteRecordCall ''example.com'' old_TXT, Ok ()),
              (DeleteRecordCall ''example.com'' old_A, Ok ())], ())"
  by (simp add: deleteNodeDNS_def example_defs provider_defs record_defs answer_def)

subsection \<open>The Route53 listing\<close>

lemma values_types:
  assumes "ListRecords_values rrs rest records = Some out"
    and "rrs_Type rrs = ''A'' \<or> rrs_Type rrs = ''AAAA''"
    and "list_all address_type records"
  shows "list_all address_type out"
  using assms
proof (induction rest arbitrary: records)
  case Nil
  then show ?case by simp
next
  case (Cons rr rest)
  from Cons.prems(1) obtain name val ttl where
    "ListRecords_values rrs rest
       (records @ [\<lparr>Name = name, Type = rrs_Type rrs, Value = val, TTL = ttl\<rparr>]) = Some out"
    by (auto split: option.splits)
  moreover have "list_all address_type
      (records @ [\<lparr>Name = name, Type = rrs_Type rrs, Value = val, TTL = ttl\<rparr>])"
    using Cons.prems(2,3) by simp
  ultimately show ?case using Cons.IH Cons.prems(2) by blast
qed

lemma sets_types:
  assumes "ListRecords_sets sets records = Some out"
    and "list_all address_type records"
  shows "list_all address_type out"
  using assms
proof (induction sets arbitrary: records)
  case Nil
  then show ?case by simp
next
  case (Cons rrs sets)
  show ?case
  proof (cases "rrs_Type rrs = ''A'' \<or> rrs_Type rrs = ''AAAA''")
    case True
    with Cons.prems(1) obtain records1 where
      v: "ListRecords_values rrs (rrs_ResourceRecords rrs) records = Some records1"
      and s: "ListRecords_sets sets records1 = Some out"
      by (auto split: option.splits)
    from values_types [OF v True Cons.prems(2)] have "list_all address_type records1" .
    with s Cons.IH show ?thesis by blast
  next
    case False
    with Cons.prems have "ListRecords_sets sets records = Some out" by simp
    with Cons.IH Cons.prems(2) show ?thesis by blast
  qed
qed

lemma pages_types:
  assumes "ListRecords_pages pages records = Ok out"
    and "list_all address_type records"
  shows "list_all address_type out"
  using assms
proof (induction pages arbitrary: records)
  case Nil
  then show ?case by simp
next
  case (Cons page pages)
  from Cons.prems(1) obtain sets records1 where
    "ListRecords_sets sets records = Some records1" "ListRecords_pages pages records1 = Ok out"
    by (auto split: sum.splits option.splits)
  with sets_types Cons.IH Cons.prems(2) show ?case by blast
qed

lemma Route53_types:
  "fst (ListRecords (Route53Provider client zoneID) zone s) = Ok records \<Longrightarrow>
     list_all address_type records"
  using pages_types [of "fst (ListResourceRecordSets client zoneID s)" "[]" records]
  by (simp add: Route53Provider_def Route53Provider_ListRecords_def case_prod_beta)

lemma find_no_TXT:
  "list_all address_type records \<Longrightarrow>
     find (\<lambda>record. Type record = ''TXT'' \<and> P record) records = None"
  by (induction records) auto

section \<open>The claims\<close>

subsection \<open>Deletion\<close>

text \<open>
  Claim C1, as amended. When \<^verbatim>\<open>ListRecords\<close> returns a list, \<^verbatim>\<open>deleteNodeDNS\<close> (which is what
  \<^verbatim>\<open>reconcile\<close> runs on the deletion key \<^verbatim>\<open><nodeID>:delete\<close>) returns success, and after the
  listing its calls on the backend are: for the \<^emph>\<open>first\<close> record of the list that is a TXT
  record whose value contains \<^verbatim>\<open>node_id=<nodeID>\<close>, one \<^verbatim>\<open>DeleteRecord\<close> for every record of the
  list with the name of that record, in the order of the list, and nothing else; and no
  call at all when no TXT record of the list matches, in which case the backend is left in
  the state the listing left it in.
\<close>

theorem deleteNodeDNS_sweeps_first_owner:
  assumes listed: "ListRecords p (domain r) s = (Ok records, s1)"
  shows "reconcile r p (nodeID @ '':delete'') s = deleteNodeDNS r p nodeID s
     \<and> fst (deleteNodeDNS r p nodeID s) = Ok ()
     \<and> map fst (fst (snd (deleteNodeDNS r p nodeID s))) =
         ListRecordsCall (domain r) #
           (case find (\<lambda>record. Type record = ''TXT''
                          \<and> Contains (Value record) (''node_id='' @ nodeID)) records of
              None \<Rightarrow> []
            | Some owner \<Rightarrow>
                map (DeleteRecordCall (domain r))
                  (filter (\<lambda>record. Name record = Name owner) records))
     \<and> (find (\<lambda>record. Type record = ''TXT''
                 \<and> Contains (Value record) (''node_id='' @ nodeID)) records = None
          \<longrightarrow> deleteNodeDNS r p nodeID s = (Ok (), [(ListRecordsCall (domain r), Ok ())], s1))"
proof (intro conjI impI)
  show "reconcile r p (nodeID @ '':delete'') s = deleteNodeDNS r p nodeID s"
    by (rule reconcile_delete_key)
  show "fst (deleteNodeDNS r p nodeID s) = Ok ()"
    using listed by (simp add: deleteNodeDNS_def case_prod_beta)
  show "map fst (fst (snd (deleteNodeDNS r p nodeID s))) =
         ListRecordsCall (domain r) #
           (case find (\<lambda>record. Type record = ''TXT''
                          \<and> Contains (Value record) (''node_id='' @ nodeID)) records of
              None \<Rightarrow> []
            | Some owner \<Rightarrow>
                map (DeleteRecordCall (domain r))
                  (filter (\<lambda>record. Name record = Name owner) records))"
    using listed by (simp add: deleteNodeDNS_calls)
next
  assume "find (\<lambda>record. Type record = ''TXT''
                 \<and> Contains (Value record) (''node_id='' @ nodeID)) records = None"
  then show "deleteNodeDNS r p nodeID s = (Ok (), [(ListRecordsCall (domain r), Ok ())], s1)"
    using listed by (simp add: deleteNodeDNS_def match_no_owner)
qed

text \<open>
  The example of the specification: the three records of node \<^verbatim>\<open>123456\<close> are deleted, the
  record of another name is not.
\<close>

theorem deleteNodeDNS_sweeps_first_owner_witness:
  "ListRecords (accepting_provider [db_A, web_A, web_TXT, web_AAAA]) (domain two_cached) ()
        = (Ok [db_A, web_A, web_TXT, web_AAAA], ())
   \<and> reconcile two_cached (accepting_provider [db_A, web_A, web_TXT, web_AAAA]) ''123456:delete'' ()
        = deleteNodeDNS two_cached (accepting_provider [db_A, web_A, web_TXT, web_AAAA]) ''123456'' ()
   \<and> fst (deleteNodeDNS two_cached (accepting_provider [db_A, web_A, web_TXT, web_AAAA]) ''123456'' ())
        = Ok ()
   \<and> map fst (fst (snd (deleteNodeDNS two_cached
          (accepting_provider [db_A, web_A, web_TXT, web_AAAA]) ''123456'' ())))
        = [ListRecordsCall ''example.com'', DeleteRecordCall ''example.com'' web_A,
           DeleteRecordCall ''example.com'' web_TXT, DeleteRecordCall ''example.com'' web_AAAA]"
proof -
  have h: "ListRecords (accepting_provider [db_A, web_A, web_TXT, web_AAAA]) (domain two_cached) ()
        = (Ok [db_A, web_A, web_TXT, web_AAAA], ())"
    by (simp add: provider_defs)
  have f: "find (\<lambda>record. Type record = ''TXT'' \<and> Contains (Value record) (''node_id='' @ ''123456''))
       [db_A, web_A, web_TXT, web_AAAA] = Some web_TXT"
    by (simp add: record_defs)
  have g: "filter (\<lambda>record. Name record = Name web_TXT) [db_A, web_A, web_TXT, web_AAAA]
       = [web_A, web_TXT, web_AAAA]"
    by (simp add: record_defs)
  have d: "domain two_cached = ''example.com''"
    by (simp add: example_defs)
  from deleteNodeDNS_sweeps_first_owner [OF h, of "''123456''"] h f g d show ?thesis by simp
qed

text \<open>
  Claim C1 as it is stated fails for a TXT record that matches but is not the first to do so.
  Here node \<^verbatim>\<open>123456\<close> was renamed, so that two names carry its ownership record: the list
  contains the matching TXT record \<open>web_TXT\<close>, and no delete is issued for the two records of
  its name; the sweep is for the older name, found first, and stops there.
\<close>

theorem deleteNodeDNS_sweeps_first_owner_counterexample:
  "ListRecords (accepting_provider [old_TXT, old_A, web_TXT, web_A]) (domain two_cached) ()
        = (Ok [old_TXT, old_A, web_TXT, web_A], ())
   \<and> Type web_TXT = ''TXT''
   \<and> Contains (Value web_TXT) (''node_id='' @ ''123456'')
   \<and> Name web_A = Name web_TXT
   \<and> Name old_TXT \<noteq> Name web_TXT
   \<and> map fst (fst (snd (deleteNodeDNS two_cached
          (accepting_provider [old_TXT, old_A, web_TXT, web_A]) ''123456'' ())))
        = [ListRecordsCall ''example.com'',
           DeleteRecordCall ''example.com'' old_TXT, DeleteRecordCall ''example.com'' old_A]"
  by (simp add: delete_renamed) (simp add: provider_defs record_defs)

text \<open>
  Claim C4. The match is a substring test, so the deletion key of a node id matches the
  ownership record of a longer id that starts with it. With \<open>X = 123456\<close> and \<open>Y = 1234\<close>: node
  \<open>X\<close> is in the cache, the records listed are the ones its reconciliation published, and
  the reconciliation of the deletion key of \<open>Y\<close> deletes all three.
\<close>

theorem deleteNodeDNS_matches_longer_id:
  "strict_prefix ''1234'' ''123456''
   \<and> nodeCache two_cached ''123456'' = Some node_web
   \<and> map fst (fst (snd (reconcile two_cached (accepting_provider []) ''123456'' ())))
        = map (UpdateRecordCall ''example.com'') [web_A, web_AAAA, web_TXT]
   \<and> Value web_TXT = ownership_value ''123456''
   \<and> Contains (Value web_TXT) (''node_id='' @ ''1234'')
   \<and> reconcile two_cached (accepting_provider [web_A, web_AAAA, web_TXT]) (''1234'' @ '':delete'') ()
        = (Ok (), [(ListRecordsCall ''example.com'', Ok ()),
                   (DeleteRecordCall ''example.com'' web_A, Ok ()),
                   (DeleteRecordCall ''example.com'' web_AAAA, Ok ()),
                   (DeleteRecordCall ''example.com'' web_TXT, Ok ())], ())"
proof -
  have "deleteNodeDNS two_cached (accepting_provider [web_A, web_AAAA, web_TXT]) ''1234'' ()
        = (Ok (), [(ListRecordsCall ''example.com'', Ok ()),
                   (DeleteRecordCall ''example.com'' web_A, Ok ()),
                   (DeleteRecordCall ''example.com'' web_AAAA, Ok ()),
                   (DeleteRecordCall ''example.com'' web_TXT, Ok ())], ())"
    by (simp add: deleteNodeDNS_def example_defs provider_defs record_defs answer_def)
  moreover have "strict_prefix ''1234'' ''123456''"
    by (simp add: strict_prefix_def)
  moreover have "nodeCache two_cached ''123456'' = Some node_web"
    by (simp add: example_defs)
  moreover have "Value web_TXT = ownership_value ''123456''"
    by (simp add: web_TXT_def ownership_value_def)
  moreover have "Contains (Value web_TXT) (''node_id='' @ ''1234'')"
    by (simp add: web_TXT_def)
  moreover have "reconcile two_cached (accepting_provider [web_A, web_AAAA, web_TXT]) ''1234:delete'' ()
      = deleteNodeDNS two_cached (accepting_provider [web_A, web_AAAA, web_TXT]) ''1234'' ()"
    using reconcile_delete_key [of two_cached _ "''1234''" "()"] by simp
  ultimately show ?thesis
    by (simp add: reconcile_web_accepting)
qed

text \<open>
  Claim C3. Whatever the Route53 client answers, the records that \<^verbatim>\<open>ListRecords\<close> of the Route53
  provider returns have type A or AAAA, so none is a TXT record; and the reconciliation of
  a deletion key against this provider calls \<^verbatim>\<open>ListRecords\<close> and nothing else, whether the
  listing returns records, returns an error or panics.
\<close>

theorem Route53_lists_no_TXT:
  "(\<forall>records. fst (ListRecords (Route53Provider client zoneID) zone s) = Ok records
      \<longrightarrow> list_all (\<lambda>record. (Type record = ''A'' \<or> Type record = ''AAAA'')
                                \<and> Type record \<noteq> ''TXT'') records)
   \<and> map fst (fst (snd (reconcile r (Route53Provider client zoneID) (nodeID @ '':delete'') s)))
       = [ListRecordsCall (domain r)]"
proof (intro conjI allI impI)
  fix records
  assume "fst (ListRecords (Route53Provider client zoneID) zone s) = Ok records"
  from Route53_types [OF this]
  show "list_all (\<lambda>record. (Type record = ''A'' \<or> Type record = ''AAAA'')
                                \<and> Type record \<noteq> ''TXT'') records"
    by (auto simp: list_all_iff)
next
  let ?p = "Route53Provider client zoneID"
  have "(case fst (ListRecords ?p (domain r) s) of
          Ok records \<Rightarrow>
            (case find (\<lambda>record. Type record = ''TXT'' \<and> Contains (Value record) (''node_id='' @ nodeID)) records of
               None \<Rightarrow> []
             | Some owner \<Rightarrow>
                 map (DeleteRecordCall (domain r)) (filter (\<lambda>record. Name record = Name owner) records))
        | Err err \<Rightarrow> []
        | Panic \<Rightarrow> []) = []"
  proof (cases "fst (ListRecords ?p (domain r) s)")
    case (Ok records)
    from Route53_types [OF Ok] have "list_all address_type records" .
    from find_no_TXT [OF this] Ok show ?thesis by simp
  qed simp_all
  then show "map fst (fst (snd (reconcile r ?p (nodeID @ '':delete'') s))) = [ListRecordsCall (domain r)]"
    by (simp add: reconcile_delete_key deleteNodeDNS_calls)
qed

text \<open>
  A zone that holds an ownership record of node \<^verbatim>\<open>123456\<close>: the listing leaves it out, and
  the deletion of the node deletes nothing.
\<close>

theorem Route53_lists_no_TXT_witness:
  "fst (ListRecords (Route53Provider example_zone ''Z123'') ''example.com'' ()) = Ok [web_A, web_AAAA]
   \<and> list_all (\<lambda>record. (Type record = ''A'' \<or> Type record = ''AAAA'')
                                \<and> Type record \<noteq> ''TXT'') [web_A, web_AAAA]
   \<and> map fst (fst (snd (reconcile two_cached (Route53Provider example_zone ''Z123'')
        (''123456'' @ '':delete'') ()))) = [ListRecordsCall ''example.com'']"
proof -
  have h: "fst (ListRecords (Route53Provider example_zone ''Z123'') ''example.com'' ()) = Ok [web_A, web_AAAA]"
    by (simp add: Route53Provider_def Route53Provider_ListRecords_def route53_defs record_defs)
  have d: "domain two_cached = ''example.com''"
    by (simp add: example_defs)
  from Route53_lists_no_TXT [of example_zone "''Z123''" "''example.com''" "()" two_cached "''123456''"] h d
  show ?thesis by simp
qed

subsection \<open>Upsert\<close>

text \<open>
  Claim C2, as amended. For a cached node that passes the tag filter, if no
  \<^verbatim>\<open>UpdateRecord\<close> call for an address returns an error (the only call that may fail is the one
  for the TXT record), the calls on the backend are exactly: one \<^verbatim>\<open>UpdateRecord\<close> per address,
  in the order of the address list, with the record named \<^verbatim>\<open><name>.<domain>\<close>, of type AAAA if
  the address contains a colon and A otherwise, with the address as value and TTL 300; then
  one \<^verbatim>\<open>UpdateRecord\<close> with the TXT record of the same name, whose value is
  \<^verbatim>\<open>dnsscale-managed node_id=<id>\<close> between two double quotes, TTL 300.
\<close>

theorem reconcile_upsert_calls:
  assumes cached: "nodeCache r key = Some node"
    and upsert: "\<not> HasSuffix key '':delete''"
    and managed: "shouldManageNode r node"
    and addresses_ok:
      "\<forall>zone record err.
         (UpdateRecordCall zone record, Err err) \<in> set (fst (snd (reconcile r p key s)))
           \<longrightarrow> Type record = ''TXT''"
  shows "map fst (fst (snd (reconcile r p key s))) =
     map (\<lambda>a. UpdateRecordCall (domain r)
                \<lparr>Name = TailscaleNode.Name node @ ''.'' @ domain r,
                 Type = (if Contains a '':'' then ''AAAA'' else ''A''),
                 Value = a, TTL = 300\<rparr>) (Addresses node)
       @ [UpdateRecordCall (domain r)
            \<lparr>Name = TailscaleNode.Name node @ ''.'' @ domain r, Type = ''TXT'',
             Value = CHR 0x22 # ''dnsscale-managed node_id='' @ ID node @ [CHR 0x22],
             TTL = 300\<rparr>]"
proof -
  let ?n = "TailscaleNode.Name node @ ''.'' @ domain r"
  let ?ra = "reconcile_addresses p (domain r) ?n (Addresses node) s"
  note up = reconcile_upsert [OF upsert cached managed, of p s]
  have none: "fst ?ra = None"
  proof (cases "fst ?ra")
    case None
    then show ?thesis .
  next
    case (Some e)
    from reconcile_addresses_Some [OF Some] obtain done' addr err where
      t: "fst (snd ?ra) = map (address_ok (domain r) ?n) done'
            @ [(UpdateRecordCall (domain r) (address_record ?n addr), Err err)]"
      by blast
    from Some t have "(UpdateRecordCall (domain r) (address_record ?n addr), Err err)
        \<in> set (fst (snd (reconcile r p key s)))"
      by (simp add: up case_prod_beta)
    with addresses_ok have "Type (address_record ?n addr) = ''TXT''" by blast
    then show ?thesis by (simp split: if_splits)
  qed
  from reconcile_addresses_None [OF none] none show ?thesis
    by (simp add: up case_prod_beta ownership_value_def comp_def)
qed

text \<open>
  The example of the specification, on a backend that accepts every call.
\<close>

theorem reconcile_upsert_calls_witness:
  "nodeCache two_cached ''123456'' = Some node_web
   \<and> \<not> HasSuffix ''123456'' '':delete''
   \<and> shouldManageNode two_cached node_web
   \<and> list_all (\<lambda>ev. snd ev = Ok ()) (fst (snd (reconcile two_cached (accepting_provider []) ''123456'' ())))
   \<and> map fst (fst (snd (reconcile two_cached (accepting_provider []) ''123456'' ())))
       = [UpdateRecordCall ''example.com'' web_A, UpdateRecordCall ''example.com'' web_AAAA,
          UpdateRecordCall ''example.com'' web_TXT]"
proof -
  have h1: "nodeCache two_cached ''123456'' = Some node_web"
    by (simp add: example_defs)
  have h4: "\<forall>zone record err.
         (UpdateRecordCall zone record, Err err)
            \<in> set (fst (snd (reconcile two_cached (accepting_provider []) ''123456'' ())))
           \<longrightarrow> Type record = ''TXT''"
    by (simp add: reconcile_web_accepting)
  have ok: "list_all (\<lambda>ev. snd ev = Ok ())
      (fst (snd (reconcile two_cached (accepting_provider []) ''123456'' ())))"
    by (simp add: reconcile_web_accepting)
  have v: "map (\<lambda>a. UpdateRecordCall (domain two_cached)
                \<lparr>Name = TailscaleNode.Name node_web @ ''.'' @ domain two_cached,
                 Type = (if Contains a '':'' then ''AAAA'' else ''A''),
                 Value = a, TTL = 300\<rparr>) (Addresses node_web)
       @ [UpdateRecordCall (domain two_cached)
            \<lparr>Name = TailscaleNode.Name node_web @ ''.'' @ domain two_cached, Type = ''TXT'',
             Value = CHR 0x22 # ''dnsscale-managed node_id='' @ ID node_web @ [CHR 0x22],
             TTL = 300\<rparr>]
     = [UpdateRecordCall ''example.com'' web_A, UpdateRecordCall ''example.com'' web_AAAA,
          UpdateRecordCall ''example.com'' web_TXT]"
    by (simp add: example_defs record_defs)
  from reconcile_upsert_calls [OF h1 HasSuffix_web managed_web h4] have
    "map fst (fst (snd (reconcile two_cached (accepting_provider []) ''123456'' ())))
       = [UpdateRecordCall ''example.com'' web_A, UpdateRecordCall ''example.com'' web_AAAA,
          UpdateRecordCall ''example.com'' web_TXT]"
    unfolding v .
  with h1 HasSuffix_web managed_web ok show ?thesis by blast
qed

text \<open>
  Claim C2 as it is stated fails when an update for an address fails: on a backend that
  rejects AAAA records, the node with an IPv4 and an IPv6 address passes the filter, and the
  calls made are the two updates for its addresses; there is no update of a TXT record.
\<close>

theorem reconcile_upsert_calls_counterexample:
  "nodeCache two_cached ''123456'' = Some node_web
   \<and> shouldManageNode two_cached node_web
   \<and> Addresses node_web = [''100.64.1.1'', ''fd7a:115c:a1e0::1'']
   \<and> map fst (fst (snd (reconcile two_cached no_ipv6_provider ''123456'' ())))
       = [UpdateRecordCall ''example.com'' web_A, UpdateRecordCall ''example.com'' web_AAAA]
   \<and> Type web_A = ''A'' \<and> Type web_AAAA = ''AAAA''"
  by (simp add: reconcile_web_no_ipv6 managed_web) (simp add: example_defs record_defs)

text \<open>
  Claim C8. If the trace of a reconciliation holds an \<^verbatim>\<open>UpdateRecord\<close> call for a TXT record
  that returned an error, then it is the last call of the trace, every call before it (the
  updates for the addresses) succeeded, \<^verbatim>\<open>reconcile\<close> returns success, and the worker calls
  \<^verbatim>\<open>Forget\<close> and then \<^verbatim>\<open>Done\<close> on the key: it does not call \<^verbatim>\<open>AddRateLimited\<close>.
\<close>

theorem reconcile_ownership_failure_forgotten:
  assumes failed: "(UpdateRecordCall zone record, Err err) \<in> set (fst (snd (reconcile r p key s)))"
    and ownership: "Type record = ''TXT''"
  shows "fst (reconcile r p key s) = Ok ()
     \<and> last (fst (snd (reconcile r p key s))) = (UpdateRecordCall zone record, Err err)
     \<and> list_all (\<lambda>ev. snd ev = Ok ()) (butlast (fst (snd (reconcile r p key s))))
     \<and> fst (snd (worker_item r p key s)) = [Forget key, Done key]"
  using reconcile_cases [of key r p s]
proof (elim disjE exE conjE)
  assume "reconcile r p key s = deleteNodeDNS r p (TrimSuffix key '':delete'') s"
  with failed show ?thesis by (simp add: deleteNodeDNS_no_update)
next
  assume "fst (snd (reconcile r p key s)) = []"
  with failed show ?thesis by simp
next
  fix n done' addr e
  assume "fst (snd (reconcile r p key s)) = map (address_ok (domain r) n) done'
                @ [(UpdateRecordCall (domain r) (address_record n addr), Err e)]"
  with failed have "record = address_record n addr"
    by auto
  with ownership show ?thesis by (simp split: if_splits)
next
  fix node a
  assume res: "fst (reconcile r p key s) = Ok ()"
    and trace: "fst (snd (reconcile r p key s))
      = map (address_ok (domain r) (TailscaleNode.Name node @ ''.'' @ domain r)) (Addresses node)
          @ [(UpdateRecordCall (domain r)
                (ownership_record (TailscaleNode.Name node @ ''.'' @ domain r) (ID node)), a)]"
  from failed trace have ev: "(UpdateRecordCall zone record, Err err)
      = (UpdateRecordCall (domain r)
           (ownership_record (TailscaleNode.Name node @ ''.'' @ domain r) (ID node)), a)"
    by auto
  have ok: "list_all (\<lambda>ev. snd ev = Ok ())
      (map (address_ok (domain r) (TailscaleNode.Name node @ ''.'' @ domain r)) (Addresses node))"
    by (simp add: list_all_iff)
  from res trace ev ok show ?thesis
    by (simp add: worker_item_queue)
qed

theorem reconcile_ownership_failure_forgotten_witness:
  "(UpdateRecordCall ''example.com'' web_TXT, Err backend_unavailable)
      \<in> set (fst (snd (reconcile two_cached no_txt_provider ''123456'' ())))
   \<and> Type web_TXT = ''TXT''
   \<and> fst (reconcile two_cached no_txt_provider ''123456'' ()) = Ok ()
   \<and> last (fst (snd (reconcile two_cached no_txt_provider ''123456'' ())))
       = (UpdateRecordCall ''example.com'' web_TXT, Err backend_unavailable)
   \<and> list_all (\<lambda>ev. snd ev = Ok ()) (butlast (fst (snd (reconcile two_cached no_txt_provider ''123456'' ()))))
   \<and> fst (snd (worker_item two_cached no_txt_provider ''123456'' ()))
       = [Forget ''123456'', Done ''123456'']"
proof -
  have h1: "(UpdateRecordCall ''example.com'' web_TXT, Err backend_unavailable)
      \<in> set (fst (snd (reconcile two_cached no_txt_provider ''123456'' ())))"
    by (simp add: reconcile_web_no_txt)
  have h2: "Type web_TXT = ''TXT''"
    by (simp add: web_TXT_def)
  from reconcile_ownership_failure_forgotten [OF h1 h2] h1 h2 show ?thesis by blast
qed

text \<open>
  Claim C9. If the trace of a reconciliation holds an \<^verbatim>\<open>UpdateRecord\<close> call that returned an
  error, for a record that is not a TXT record (so for an address), then \<^verbatim>\<open>reconcile\<close> returns
  that error, wrapped; the failed call is the last call of the trace, after calls that all
  succeeded; and the worker calls \<^verbatim>\<open>AddRateLimited\<close> and then \<^verbatim>\<open>Done\<close> on the key.
\<close>

theorem reconcile_address_failure_requeued:
  assumes failed: "(UpdateRecordCall zone record, Err err) \<in> set (fst (snd (reconcile r p key s)))"
    and address: "Type record \<noteq> ''TXT''"
  shows "fst (reconcile r p key s) = Err (Errorf_w ''failed to update DNS record'' err)
     \<and> last (fst (snd (reconcile r p key s))) = (UpdateRecordCall zone record, Err err)
     \<and> list_all (\<lambda>ev. snd ev = Ok ()) (butlast (fst (snd (reconcile r p key s))))
     \<and> fst (snd (worker_item r p key s)) = [AddRateLimited key, Done key]"
  using reconcile_cases [of key r p s]
proof (elim disjE exE conjE)
  assume "reconcile r p key s = deleteNodeDNS r p (TrimSuffix key '':delete'') s"
  with failed show ?thesis by (simp add: deleteNodeDNS_no_update)
next
  assume "fst (snd (reconcile r p key s)) = []"
  with failed show ?thesis by simp
next
  fix n done' addr e
  assume res: "fst (reconcile r p key s) = Err (Errorf_w ''failed to update DNS record'' e)"
    and trace: "fst (snd (reconcile r p key s)) = map (address_ok (domain r) n) done'
                @ [(UpdateRecordCall (domain r) (address_record n addr), Err e)]"
  from failed trace have ev: "(UpdateRecordCall zone record, Err err)
      = (UpdateRecordCall (domain r) (address_record n addr), Err e)"
    by auto
  have ok: "list_all (\<lambda>ev. snd ev = Ok ()) (map (address_ok (domain r) n) done')"
    by (simp add: list_all_iff)
  from res trace ev ok show ?thesis
    by (simp add: worker_item_queue)
next
  fix node a
  assume "fst (snd (reconcile r p key s))
      = map (address_ok (domain r) (TailscaleNode.Name node @ ''.'' @ domain r)) (Addresses node)
          @ [(UpdateRecordCall (domain r)
                (ownership_record (TailscaleNode.Name node @ ''.'' @ domain r) (ID node)), a)]"
  with failed have "record = ownership_record (TailscaleNode.Name node @ ''.'' @ domain r) (ID node)"
    by auto
  with address show ?thesis by simp
qed

theorem reconcile_address_failure_requeued_witness:
  "(UpdateRecordCall ''example.com'' web_AAAA, Err backend_unavailable)
      \<in> set (fst (snd (reconcile two_cached no_ipv6_provider ''123456'' ())))
   \<and> Type web_AAAA \<noteq> ''TXT''
   \<and> fst (reconcile two_cached no_ipv6_provider ''123456'' ())
       = Err (Errorf_w ''failed to update DNS record'' backend_unavailable)
   \<and> last (fst (snd (reconcile two_cached no_ipv6_provider ''123456'' ())))
       = (UpdateRecordCall ''example.com'' web_AAAA, Err backend_unavailable)
   \<and> list_all (\<lambda>ev. snd ev = Ok ()) (butlast (fst (snd (reconcile two_cached no_ipv6_provider ''123456'' ()))))
   \<and> fst (snd (worker_item two_cached no_ipv6_provider ''123456'' ()))
       = [AddRateLimited ''123456'', Done ''123456'']"
proof -
  have h1: "(UpdateRecordCall ''example.com'' web_AAAA, Err backend_unavailable)
      \<in> set (fst (snd (reconcile two_cached no_ipv6_provider ''123456'' ())))"
    by (simp add: reconcile_web_no_ipv6)
  have h2: "Type web_AAAA \<noteq> ''TXT''"
    by (simp add: web_AAAA_def)
  from reconcile_address_failure_requeued [OF h1 h2] h1 h2 show ?thesis by blast
qed

subsection \<open>The change detector\<close>

text \<open>
  Claim C5. Let the cache be the one that a run of \<^verbatim>\<open>syncNodes\<close> on \<open>L1\<close> leaves, and let \<open>L2\<close>
  have the ids of \<open>L1\<close>, every node of \<open>L2\<close> being equal, but for its tags, to the nodes of \<open>L1\<close>
  with its id. Then a run on \<open>L2\<close> calls nothing on the queue and leaves the reconciler, and
  so the cache and its keys, as it was.
\<close>

theorem syncNodes_ignores_tags:
  assumes built: "range_of_cache r0 L1 keys1"
    and tags_only: "\<forall>n2 \<in> set L2. \<forall>n1 \<in> set L1. ID n1 = ID n2 \<longrightarrow> n2 = n1\<lparr>Tags := Tags n2\<rparr>"
    and same_ids: "ID ` set L2 = ID ` set L1"
    and keys2: "range_of_cache (fst (syncNodes r0 (Inr L1) keys1)) L2 keys2"
  shows "syncNodes (fst (syncNodes r0 (Inr L1) keys1)) (Inr L2) keys2
           = (fst (syncNodes r0 (Inr L1) keys1), [])"
proof -
  let ?r1 = "fst (syncNodes r0 (Inr L1) keys1)"
  let ?c1 = "nodeCache ?r1"
  have dom1: "dom ?c1 = ID ` set L1"
    using built by (simp add: range_of_cache_def syncNodes_dom)
  have cached: "\<exists>c. ?c1 (ID n2) = Some c \<and> nodesEqual c n2" if n2: "n2 \<in> set L2" for n2
  proof -
    from n2 same_ids obtain m where m: "m \<in> set L1" "ID m = ID n2" by force
    from updated_entries [OF m(1), of "nodeCache r0" Map.empty] obtain c n1 where
      c: "fst (syncNodes_updated L1 (nodeCache r0) Map.empty) (ID m) = Some c"
      and n1: "n1 \<in> set L1" "ID n1 = ID m" "nodesEqual c n1"
      by blast
    from m(1) c have c1: "?c1 (ID n2) = Some c"
      by (simp add: syncNodes_cache m(2) [symmetric])
    from tags_only n2 n1(1,2) m(2) have "n2 = n1\<lparr>Tags := Tags n2\<rparr>" by simp
    then have "nodesEqual n1 n2" using nodesEqual_Tags [of n1 "Tags n2"] by simp
    with n1(3) have "nodesEqual c n2" by (rule nodesEqual_trans)
    with c1 show ?thesis by blast
  qed
  then have "\<forall>n \<in> set L2. \<exists>c. ?c1 (ID n) = Some c \<and> nodesEqual c n" by blast
  from updated_unchanged [OF this, of Map.empty]
  have same: "fst (syncNodes_updated L2 ?c1 Map.empty) = ?c1"
    and quiet: "snd (snd (syncNodes_updated L2 ?c1 Map.empty)) = []"
    by simp_all
  from keys2 dom1 same_ids have k2: "set keys2 = ID ` set L2"
    by (simp add: range_of_cache_def)
  have "nodeCache (fst (syncNodes ?r1 (Inr L2) keys2)) = ?c1"
  proof
    fix k
    show "nodeCache (fst (syncNodes ?r1 (Inr L2) keys2)) k = ?c1 k"
      unfolding syncNodes_cache [of ?r1 L2 keys2 k] same using k2 by simp
  qed
  moreover have "fst (syncNodes ?r1 (Inr L2) keys2)
      = ?r1\<lparr>nodeCache := nodeCache (fst (syncNodes ?r1 (Inr L2) keys2))\<rparr>"
    by (simp add: syncNodes_Inr)
  ultimately have r: "fst (syncNodes ?r1 (Inr L2) keys2) = ?r1" by simp
  have "filter (\<lambda>k. k \<notin> ID ` set L2) keys2 = []"
    using k2 by (simp add: filter_empty_conv)
  then have q: "snd (syncNodes ?r1 (Inr L2) keys2) = []"
    by (simp add: syncNodes_queue quiet)
  from r q show ?thesis by (simp add: prod_eq_iff)
qed

theorem syncNodes_ignores_tags_witness:
  "range_of_cache (NewDNSReconciler ''example.com'') [node_web, node_db] [''123456'', ''7'']
   \<and> web_retagged = node_web\<lparr>Tags := Tags web_retagged\<rparr>
   \<and> db_retagged = node_db\<lparr>Tags := Tags db_retagged\<rparr>
   \<and> Tags web_retagged \<noteq> Tags node_web \<and> Tags db_retagged \<noteq> Tags node_db
   \<and> ID ` set [db_retagged, web_retagged] = ID ` set [node_web, node_db]
   \<and> range_of_cache
        (fst (syncNodes (NewDNSReconciler ''example.com'') (Inr [node_web, node_db]) [''123456'', ''7'']))
        [db_retagged, web_retagged] [''7'', ''123456'']
   \<and> syncNodes
        (fst (syncNodes (NewDNSReconciler ''example.com'') (Inr [node_web, node_db]) [''123456'', ''7'']))
        (Inr [db_retagged, web_retagged]) [''7'', ''123456'']
        = (fst (syncNodes (NewDNSReconciler ''example.com'') (Inr [node_web, node_db]) [''123456'', ''7'']),
           [])"
proof -
  let ?r0 = "NewDNSReconciler ''example.com''"
  have h1: "range_of_cache ?r0 [node_web, node_db] [''123456'', ''7'']"
    by (auto simp: range_of_cache_def example_defs)
  have t: "web_retagged = node_web\<lparr>Tags := Tags web_retagged\<rparr>"
    "db_retagged = node_db\<lparr>Tags := Tags db_retagged\<rparr>"
    "Tags web_retagged \<noteq> Tags node_web" "Tags db_retagged \<noteq> Tags node_db"
    by (simp_all add: web_retagged_def db_retagged_def example_defs)
  have h2: "\<forall>n2 \<in> set [db_retagged, web_retagged]. \<forall>n1 \<in> set [node_web, node_db].
      ID n1 = ID n2 \<longrightarrow> n2 = n1\<lparr>Tags := Tags n2\<rparr>"
    by (simp add: web_retagged_def db_retagged_def example_defs)
  have h3: "ID ` set [db_retagged, web_retagged] = ID ` set [node_web, node_db]"
    by (auto simp: web_retagged_def db_retagged_def example_defs)
  have d: "dom (nodeCache (fst (syncNodes ?r0 (Inr [node_web, node_db]) [''123456'', ''7''])))
      = {''123456'', ''7''}"
    by (subst syncNodes_dom) (auto simp: example_defs)
  have h4: "range_of_cache (fst (syncNodes ?r0 (Inr [node_web, node_db]) [''123456'', ''7'']))
      [db_retagged, web_retagged] [''7'', ''123456'']"
    using d by (auto simp: range_of_cache_def web_retagged_def db_retagged_def example_defs)
  from syncNodes_ignores_tags [OF h1 h2 h3 h4] h1 t h3 h4 show ?thesis by blast
qed

text \<open>
  Claim C6. A node \<open>N\<close> cached under the id \<open>k\<close> and absent from the fetched list: the calls
  on the queue are the upsert keys of the first loop, which are ids of fetched nodes,
  followed by the deletion keys of the second loop, among which the one for \<open>k\<close> occurs
  exactly once; and \<open>k\<close> is no longer in the cache. The string \<^verbatim>\<open>k:delete\<close> is then added
  exactly once in all, unless a fetched node has this very string as its id.
\<close>

theorem syncNodes_absent_node_deleted_once:
  assumes cached: "nodeCache r k = Some N"
    and absent: "k \<notin> ID ` set nodes"
    and keys: "range_of_cache r nodes keys"
  shows "\<exists>upserts deleted.
           snd (syncNodes r (Inr nodes) keys)
             = map Add upserts @ map (\<lambda>i. Add (i @ '':delete'')) deleted
           \<and> set upserts \<subseteq> ID ` set nodes
           \<and> count_list deleted k = 1
           \<and> (k @ '':delete'' \<notin> ID ` set nodes
                \<longrightarrow> count_list (snd (syncNodes r (Inr nodes) keys)) (Add (k @ '':delete'')) = 1)
           \<and> nodeCache (fst (syncNodes r (Inr nodes) keys)) k = None"
proof -
  obtain ns where ns: "snd (snd (syncNodes_updated nodes (nodeCache r) Map.empty))
      = map (\<lambda>n. Add (ID n)) ns" "set ns \<subseteq> set nodes"
    using updated_queue by blast
  let ?ups = "map ID ns"
  let ?del = "filter (\<lambda>k. k \<notin> ID ` set nodes) keys"
  from keys have d: "distinct keys" and s: "set keys = dom (nodeCache r) \<union> ID ` set nodes"
    by (simp_all add: range_of_cache_def)
  from cached s have kin: "k \<in> set keys" by auto
  have q: "snd (syncNodes r (Inr nodes) keys)
             = map Add ?ups @ map (\<lambda>i. Add (i @ '':delete'')) ?del"
    by (simp add: syncNodes_queue ns(1) comp_def)
  have u: "set ?ups \<subseteq> ID ` set nodes" using ns(2) by auto
  have c: "count_list ?del k = 1"
    using d kin absent by (simp add: count_list_distinct)
  have c2: "count_list (snd (syncNodes r (Inr nodes) keys)) (Add (k @ '':delete'')) = 1"
    if "k @ '':delete'' \<notin> ID ` set nodes"
  proof -
    have "Add (k @ '':delete'') \<notin> set (map Add ?ups)" using that u by auto
    then have "count_list (map Add ?ups) (Add (k @ '':delete'')) = 0"
      by (simp only: count_list_0_iff not_False_eq_True)
    moreover have "count_list (map (\<lambda>i. Add (i @ '':delete'')) ?del) (Add (k @ '':delete''))
        = count_list ?del k"
      by (rule count_list_map_conv [OF inj_delete_key])
    ultimately show ?thesis using c by (simp only: q count_list_append)
  qed
  have n: "nodeCache (fst (syncNodes r (Inr nodes) keys)) k = None"
    using kin absent by (simp add: syncNodes_cache)
  from q u c c2 n show ?thesis by blast
qed

theorem syncNodes_absent_node_deleted_once_witness:
  "nodeCache two_cached ''123456'' = Some node_web
   \<and> ''123456'' \<notin> ID ` set [node_db]
   \<and> range_of_cache two_cached [node_db] [''7'', ''123456'']
   \<and> (\<exists>upserts deleted.
           snd (syncNodes two_cached (Inr [node_db]) [''7'', ''123456''])
             = map Add upserts @ map (\<lambda>i. Add (i @ '':delete'')) deleted
           \<and> set upserts \<subseteq> ID ` set [node_db]
           \<and> count_list deleted ''123456'' = 1
           \<and> (''123456'' @ '':delete'' \<notin> ID ` set [node_db]
                \<longrightarrow> count_list (snd (syncNodes two_cached (Inr [node_db]) [''7'', ''123456'']))
                      (Add (''123456'' @ '':delete'')) = 1)
           \<and> nodeCache (fst (syncNodes two_cached (Inr [node_db]) [''7'', ''123456''])) ''123456'' = None)"
proof -
  have h1: "nodeCache two_cached ''123456'' = Some node_web"
    by (simp add: example_defs)
  have h2: "''123456'' \<notin> ID ` set [node_db]"
    by (simp add: example_defs)
  have h3: "range_of_cache two_cached [node_db] [''7'', ''123456'']"
    by (auto simp: range_of_cache_def example_defs)
  from syncNodes_absent_node_deleted_once [OF h1 h2 h3] h1 h2 h3 show ?thesis by blast
qed

text \<open>
  Claim C7. After a run of \<^verbatim>\<open>syncNodes\<close> on a fetched list, the ids in the cache are the
  ids of the list; and so they are after any sequence of polls that starts from the empty
  cache of \<^verbatim>\<open>NewDNSReconciler\<close> and ends with a successful one (failed polls in between
  change nothing).
\<close>

theorem syncNodes_cache_ids:
  "(range_of_cache r nodes keys
      \<longrightarrow> dom (nodeCache (fst (syncNodes r (Inr nodes) keys))) = ID ` set nodes)
   \<and> (ranges_of_cache (NewDNSReconciler d) (polls @ [(Inr nodes, keys)])
      \<longrightarrow> dom (nodeCache (fst (watchTailscale (NewDNSReconciler d) (polls @ [(Inr nodes, keys)]))))
            = ID ` set nodes)"
proof (intro conjI impI)
  assume "range_of_cache r nodes keys"
  then show "dom (nodeCache (fst (syncNodes r (Inr nodes) keys))) = ID ` set nodes"
    by (simp add: range_of_cache_def syncNodes_dom)
next
  assume "ranges_of_cache (NewDNSReconciler d) (polls @ [(Inr nodes, keys)])"
  then have "range_of_cache (fst (watchTailscale (NewDNSReconciler d) polls)) nodes keys"
    by (rule ranges_of_cache_snoc)
  then show "dom (nodeCache (fst (watchTailscale (NewDNSReconciler d) (polls @ [(Inr nodes, keys)]))))
            = ID ` set nodes"
    by (simp add: watchTailscale_snoc range_of_cache_def syncNodes_dom)
qed

theorem syncNodes_cache_ids_witness:
  "range_of_cache two_cached [node_db] [''7'', ''123456'']
   \<and> dom (nodeCache (fst (syncNodes two_cached (Inr [node_db]) [''7'', ''123456'']))) = ID ` set [node_db]
   \<and> ranges_of_cache (NewDNSReconciler ''example.com'')
        ([(Inr [node_web, node_db], [''7'', ''123456'']), (Inl (External ''timeout''), [])]
           @ [(Inr [node_db], [''7'', ''123456''])])
   \<and> dom (nodeCache (fst (watchTailscale (NewDNSReconciler ''example.com'')
        ([(Inr [node_web, node_db], [''7'', ''123456'']), (Inl (External ''timeout''), [])]
           @ [(Inr [node_db], [''7'', ''123456''])])))) = ID ` set [node_db]"
proof -
  have h1: "range_of_cache two_cached [node_db] [''7'', ''123456'']"
    by (auto simp: range_of_cache_def example_defs)
  have d: "dom (nodeCache (fst (syncNodes (NewDNSReconciler ''example.com'')
              (Inr [node_web, node_db]) [''7'', ''123456'']))) = {''123456'', ''7''}"
    by (subst syncNodes_dom) (auto simp: example_defs)
  have h2: "ranges_of_cache (NewDNSReconciler ''example.com'')
        ([(Inr [node_web, node_db], [''7'', ''123456'']), (Inl (External ''timeout''), [])]
           @ [(Inr [node_db], [''7'', ''123456''])])"
    using d by (auto simp: range_of_cache_def syncNodes_def example_defs)
  from syncNodes_cache_ids [of two_cached "[node_db]" "[''7'', ''123456'']" "''example.com''"
      "[(Inr [node_web, node_db], [''7'', ''123456'']), (Inl (External ''timeout''), [])]"] h1 h2
  show ?thesis by blast
qed

text \<open>
  Claim C10. When \<^verbatim>\<open>ListNodes\<close> returns an error, \<^verbatim>\<open>syncNodes\<close> returns with the reconciler, and so
  the node cache, exactly as it was, and calls nothing on the work queue.
\<close>

theorem syncNodes_fetch_error: "syncNodes r (Inl err) keys = (r, [])"
  by (simp add: syncNodes_def)

end
